theory Spec2Isabelle
  imports Complex_Main
begin

section \<open>Batched tensors over the reals\<close>

text \<open>
  The solver of \<^verbatim>\<open>lcp_physics/lcp/solvers/batch_pdipm.py\<close> works on batched
  tensors of floating-point numbers. The embedding keeps the shapes and the control
  flow of the source and reads every number as a real: a tensor of shape
  \<open>(nBatch, n)\<close> is a list of rows, one of shape \<open>(nBatch, n, m)\<close> a list of
  matrices. Rounding is not modelled. Where IEEE arithmetic would leave the finite
  numbers (a division by zero gives an infinity or a NaN and the source goes on
  computing with it), the model stops with the outcome \<open>NonFinite\<close>, so that no
  theorem below speaks about HOL's convention \<open>x / 0 = 0\<close>.
\<close>

type_synonym vec = "real list"
type_synonym mat = "real list list"
type_synonym bvec = "vec list"
type_synonym bmat = "mat list"

datatype error =
    RuntimeError string
  | TypeError
  | AttributeError
  | AssertionError
  | NonFinite

definition has_zero :: "bvec \<Rightarrow> bool" where
  "has_zero t = (\<exists>row \<in> set t. 0 \<in> set row)"

definition pos :: "bvec \<Rightarrow> bool" where
  "pos t = (\<forall>row \<in> set t. \<forall>c \<in> set row. 0 < c)"

definition tmap2 :: "(real \<Rightarrow> real \<Rightarrow> real) \<Rightarrow> bvec \<Rightarrow> bvec \<Rightarrow> bvec" where
  "tmap2 f a b = map2 (map2 f) a b"

definition same_shape :: "bvec \<Rightarrow> bvec \<Rightarrow> bool" where
  "same_shape a b = (map length a = map length b)"

text \<open>\<^verbatim>\<open>t.max()\<close> and \<open>t.min(1)[0]\<close>: both raise on a tensor without elements.\<close>

fun max_all :: "real list \<Rightarrow> real option" where
  "max_all [] = None"
| "max_all (c # cs) = Some (fold max cs c)"

fun min_row :: "real list \<Rightarrow> real option" where
  "min_row [] = None"
| "min_row (c # cs) = Some (fold min cs c)"

fun those_rows :: "real option list \<Rightarrow> real list option" where
  "those_rows [] = Some []"
| "those_rows (None # _) = None"
| "those_rows (Some c # cs) = (case those_rows cs of None \<Rightarrow> None | Some r \<Rightarrow> Some (c # r))"

section \<open>The step length: \<^verbatim>\<open>get_step\<close>\<close>

text \<open>
  \<^verbatim>\<open>
  def get_step(v, dv):
      a = -v / dv
      a[dv > 0] = max(1.0, a.max())
      step = a.min(1)[0].squeeze()
      return step
  \<close>
  \<open>a.max()\<close> is the maximum over the whole tensor, all batch elements together, read
  before the masked assignment.
\<close>

definition get_step :: "bvec \<Rightarrow> bvec \<Rightarrow> error + real list" where
  "get_step v dv =
     (if has_zero dv then Inl NonFinite
      else
        let a = tmap2 (\<lambda>vi dvi. - vi / dvi) v dv in
        case max_all (concat a) of
          None \<Rightarrow> Inl (RuntimeError ''max of an empty tensor'')
        | Some amax \<Rightarrow>
            let m = max 1 amax;
                a' = tmap2 (\<lambda>ai dvi. if dvi > 0 then m else ai) a dv
            in case those_rows (map min_row a') of
                 None \<Rightarrow> Inl (RuntimeError ''min over an empty dimension'')
               | Some step \<Rightarrow> Inr step)"

text \<open>
  The step length as the specification words it: per batch element the least ratio
  \<open>- v\<^sub>i / dv\<^sub>i\<close> over the components with \<open>dv\<^sub>i < 0\<close>, clamped to at most 1.
\<close>

definition spec_step_row :: "vec \<Rightarrow> vec \<Rightarrow> real" where
  "spec_step_row v dv =
     foldr (\<lambda>(vi, dvi) acc. if dvi < 0 then min (- vi / dvi) acc else acc) (zip v dv) 1"

definition spec_get_step :: "bvec \<Rightarrow> bvec \<Rightarrow> real list" where
  "spec_get_step v dv = map2 spec_step_row v dv"


text \<open>Names for the two shapes the proofs about \<open>get_step\<close> look at, row by row.\<close>

definition ratio_row :: "real \<Rightarrow> vec \<Rightarrow> vec \<Rightarrow> vec" where
  "ratio_row m vr dr = map2 (\<lambda>vi dvi. if dvi > 0 then m else - vi / dvi) vr dr"

definition step_of :: "real \<Rightarrow> vec \<Rightarrow> vec \<Rightarrow> real" where
  "step_of m vr dr = fold min (tl (ratio_row m vr dr)) (hd (ratio_row m vr dr))"

section \<open>Linear algebra on lists\<close>

text \<open>
  Operands are taken to have the shapes the source gives them; where torch would
  raise on a shape mismatch, \<open>zip\<close> stops at the shorter list.
\<close>

definition dot :: "vec \<Rightarrow> vec \<Rightarrow> real" where
  "dot u v = sum_list (map2 (*) u v)"

definition mat_vec :: "mat \<Rightarrow> vec \<Rightarrow> vec" where
  "mat_vec m v = map (\<lambda>row. dot row v) m"

definition vec_mat :: "vec \<Rightarrow> mat \<Rightarrow> vec" where
  "vec_mat v m =
     (case m of
        [] \<Rightarrow> []
      | r # _ \<Rightarrow> fold (\<lambda>(vi, row) acc. map2 (+) acc (map ((*) vi) row)) (zip v m)
                   (replicate (length r) 0))"

definition mat_mul :: "mat \<Rightarrow> mat \<Rightarrow> mat" where
  "mat_mul a b = map (\<lambda>row. vec_mat row b) a"

text \<open>\<open>u.unsqueeze(1).bmm(M.transpose(1, 2)).squeeze(1)\<close>, that is \<open>M u\<close> per batch element.\<close>

definition bmv :: "bmat \<Rightarrow> bvec \<Rightarrow> bvec" where
  "bmv m v = map2 mat_vec m v"

text \<open>\<open>u.unsqueeze(1).bmm(M).squeeze(1)\<close>, that is \<open>M\<^sup>T u\<close> per batch element.\<close>

definition bvm :: "bvec \<Rightarrow> bmat \<Rightarrow> bvec" where
  "bvm v m = map2 vec_mat v m"

definition bmm :: "bmat \<Rightarrow> bmat \<Rightarrow> bmat" where
  "bmm a b = map2 mat_mul a b"

definition btranspose :: "bmat \<Rightarrow> bmat" where
  "btranspose m = map transpose m"

definition tneg :: "bvec \<Rightarrow> bvec" where
  "tneg t = map (map uminus) t"

definition zeros2 :: "nat \<Rightarrow> nat \<Rightarrow> bvec" where
  "zeros2 nb n = replicate nb (replicate n 0)"

definition ones2 :: "nat \<Rightarrow> nat \<Rightarrow> bvec" where
  "ones2 nb n = replicate nb (replicate n 1)"

definition zeros3 :: "nat \<Rightarrow> nat \<Rightarrow> nat \<Rightarrow> bmat" where
  "zeros3 nb n m = replicate nb (replicate n (replicate m 0))"

definition madd :: "bmat \<Rightarrow> bmat \<Rightarrow> bmat" where
  "madd a b = map2 (tmap2 (+)) a b"

definition msub :: "bmat \<Rightarrow> bmat \<Rightarrow> bmat" where
  "msub a b = map2 (tmap2 (-)) a b"

text \<open>\<open>alpha.repeat(n, 1).t() * t\<close>: every row of \<open>t\<close> scaled by its batch element's factor.\<close>

definition scale_rows :: "real list \<Rightarrow> bvec \<Rightarrow> bvec" where
  "scale_rows alpha t = map2 (\<lambda>a row. map ((*) a) row) alpha t"

text \<open>\<open>torch.norm(t, 2, 1)\<close>.\<close>

definition norm2 :: "vec \<Rightarrow> real" where
  "norm2 v = sqrt (sum_list (map (\<lambda>c. c * c) v))"

text \<open>A Python slice \<open>[-n:]\<close> starts at \<open>len - n\<close>, and at 0 for \<open>n = 0\<close>.\<close>

definition tail_start :: "nat \<Rightarrow> nat \<Rightarrow> nat" where
  "tail_start n len = (if n = 0 then 0 else len - n)"

section \<open>The torch backend\<close>

text \<open>
  Batched LU factorisation and the solves against it are torch primitives, outside
  the repository. They enter as a record of functions. \<open>btrifact\<close> is
  \<^verbatim>\<open>x.btrifact(pivot=...)\<close>: \<open>None\<close> when it raises, otherwise the packed LU data and
  the 1-based pivots. \<open>accepts_pivot\<close> says whether this torch knows the keyword
  \<open>pivot\<close> (an older one raises TypeError), \<open>is_cuda\<close> where the tensors live.
\<close>

type_synonym lu = "bmat \<times> int list list"

record torch =
  btrifact :: "bool \<Rightarrow> bmat \<Rightarrow> lu option"
  btrisolve_vec :: "bvec \<Rightarrow> lu \<Rightarrow> bvec"
  btrisolve_mat :: "bmat \<Rightarrow> lu \<Rightarrow> bmat"
  unpack_P :: "lu \<Rightarrow> bmat"
  unpack_L :: "lu \<Rightarrow> bmat"
  unpack_U :: "lu \<Rightarrow> bmat"
  accepts_pivot :: bool
  is_cuda :: bool

text \<open>
  \<^verbatim>\<open>
  def btrifact_hack(x):
      global shown_btrifact_warning
      try:
          return x.btrifact(pivot=not x.is_cuda)
      except TypeError:
          if not shown_btrifact_warning:
              print(...)
              shown_btrifact_warning = True
          return x.btrifact()
  \<close>
  The second component is the global \<open>shown_btrifact_warning\<close> afterwards.
\<close>

definition btrifact_hack :: "torch \<Rightarrow> bool \<Rightarrow> bmat \<Rightarrow> lu option \<times> bool" where
  "btrifact_hack T shown x =
     (if accepts_pivot T then (btrifact T (\<not> is_cuda T) x, shown)
      else (btrifact T True x, True))"

definition btrifact_error :: error where
  "btrifact_error = RuntimeError ''btrifact: failed to factorize some batch elements''"

section \<open>Completing the factorisation: \<^verbatim>\<open>factor_kkt\<close>\<close>

text \<open>
  The objects \<open>factor_kkt(S_LU, R, d)\<close> can reach and mutate: the module globals
  \<open>shown_btrifact_warning\<close> and \<open>factor_kkt_eye\<close> (the cached mask, kept here by its
  shape), and its tensor arguments \<open>S_LU\<close> and \<open>R\<close>. \<open>Q_LU\<close> is neither an argument
  nor a global of this function.
\<close>

record heap =
  shown_btrifact_warning :: bool
  factor_kkt_eye :: "nat list option"
  S_LU :: lu
  R :: bmat

text \<open>\<open>T[factor_kkt_eye] += (1. / d).squeeze()\<close> on one batch element, from row \<open>k\<close> on.\<close>

fun add_diag :: "nat \<Rightarrow> mat \<Rightarrow> vec \<Rightarrow> mat" where
  "add_diag k [] cs = []"
| "add_diag k (row # m) [] = row # m"
| "add_diag k (row # m) (c # cs) =
     (take k row @ (case drop k row of [] \<Rightarrow> [] | e # es \<Rightarrow> (e + c) # es)) # add_diag (Suc k) m cs"

text \<open>\<open>S_LU[0][:, -nineq:, :neq] = X\<close> on one batch element.\<close>

definition set_block21 :: "nat \<Rightarrow> nat \<Rightarrow> mat \<Rightarrow> mat \<Rightarrow> mat" where
  "set_block21 nineq neq m X =
     (let k = tail_start nineq (length m)
      in take k m @ map2 (\<lambda>row xr. xr @ drop neq row) (drop k m) X)"

text \<open>\<open>S_LU[0][:, -nineq:, -nineq:] = X\<close> on one batch element.\<close>

definition set_block22 :: "nat \<Rightarrow> mat \<Rightarrow> mat \<Rightarrow> mat" where
  "set_block22 nineq m X =
     (let k = tail_start nineq (length m)
      in take k m @ map2 (\<lambda>row xr. take (tail_start nineq (length row)) row @ xr) (drop k m) X)"

text \<open>\<open>S_LU[1][:, -nineq:] = P\<close> on one batch element.\<close>

definition set_pivots :: "nat \<Rightarrow> int list \<Rightarrow> int list \<Rightarrow> int list" where
  "set_pivots nineq piv P = take (tail_start nineq (length piv)) piv @ P"

text \<open>
  \<^verbatim>\<open>
  def factor_kkt(S_LU, R, d):
      nBatch, nineq = d.size()
      neq = S_LU[1].size(1) - nineq
      global factor_kkt_eye
      if factor_kkt_eye is None or factor_kkt_eye.size() != d.size():
          factor_kkt_eye = torch.eye(nineq).repeat(nBatch, 1, 1).type_as(R).byte()
      T = R.clone()
      T[factor_kkt_eye] += (1. / d).squeeze()
      T_LU = btrifact_hack(T)
      global shown_btrifact_warning
      if shown_btrifact_warning or not T.is_cuda:
          oldPivotsPacked = S_LU[1][:, -nineq:] - neq
          oldPivots, _, _ = torch.btriunpack(T_LU[0], oldPivotsPacked, unpack_data=False)
          newPivotsPacked = T_LU[1]
          newPivots, _, _ = torch.btriunpack(T_LU[0], newPivotsPacked, unpack_data=False)
          if neq > 0:
              S_LU_21 = S_LU[0][:, -nineq:, :neq]
              S_LU[0][:, -nineq:, :neq] = newPivots.transpose(1, 2).bmm(oldPivots.bmm(S_LU_21))
          S_LU[1][:, -nineq:] = newPivotsPacked + neq
      S_LU[0][:, -nineq:, -nineq:] = T_LU[0]
  \<close>
  The result is the exception raised, if any, and the heap afterwards. \<open>repivot\<close>
  is the body of \<open>if shown_btrifact_warning or not T.is_cuda\<close>: it gives the data and
  the pivots of \<open>S_LU\<close> after the re-pivoting of block 21 and the new pivots.
\<close>

definition repivot :: "torch \<Rightarrow> nat \<Rightarrow> nat \<Rightarrow> lu \<Rightarrow> lu \<Rightarrow> lu" where
  "repivot T nineq neq S T_LU =
     (let (data, piv) = S;
          (T_data, T_piv) = T_LU;
          oldPivotsPacked =
            map (\<lambda>row. map (\<lambda>c. c - int neq) (drop (tail_start nineq (length row)) row)) piv;
          oldPivots = unpack_P T (T_data, oldPivotsPacked);
          newPivots = unpack_P T (T_data, T_piv);
          data1 =
            (if neq > 0 then
               let S_LU_21 = map (\<lambda>m. map (take neq) (drop (tail_start nineq (length m)) m)) data
               in map2 (set_block21 nineq neq) data
                    (bmm (btranspose newPivots) (bmm oldPivots S_LU_21))
             else data)
      in (data1, map2 (set_pivots nineq) piv (map (map (\<lambda>c. c + int neq)) T_piv)))"

definition factor_kkt :: "torch \<Rightarrow> heap \<Rightarrow> bvec \<Rightarrow> error option \<times> heap" where
  "factor_kkt T hp d =
     (let nBatch = length d;
          nineq = (case d of [] \<Rightarrow> 0 | r # _ \<Rightarrow> length r);
          neq = (case snd (S_LU hp) of [] \<Rightarrow> 0 | r # _ \<Rightarrow> length r) - nineq;
          hp1 = (if factor_kkt_eye hp = None \<or> factor_kkt_eye hp \<noteq> Some [nBatch, nineq]
                 then hp\<lparr>factor_kkt_eye := Some [nBatch, nineq, nineq]\<rparr> else hp)
      in if has_zero d then (Some NonFinite, hp1)
         else
           let Tm = map2 (add_diag 0) (R hp1) (map (map (\<lambda>c. 1 / c)) d);
               (T_LU, shown) = btrifact_hack T (shown_btrifact_warning hp1) Tm;
               hp2 = hp1\<lparr>shown_btrifact_warning := shown\<rparr>
           in case T_LU of
                None \<Rightarrow> (Some btrifact_error, hp2)
              | Some (T_data, T_piv) \<Rightarrow>
                  let (data', piv') =
                        (if shown \<or> \<not> is_cuda T
                         then repivot T nineq neq (S_LU hp2) (T_data, T_piv)
                         else S_LU hp2)
                  in (None, hp2\<lparr>S_LU := (map2 (set_block22 nineq) data' T_data, piv')\<rparr>))"

section \<open>Sizes\<close>

text \<open>
  Modelled from the spec: \<open>get_sizes\<close> of \<^verbatim>\<open>lcp_physics/lcp/util.py\<close>, which is
  imported by the solver and is not part of the listing. The spec's Sizing Oracle
  derives \<open>(nineq, nz, neq, nBatch)\<close> from the shapes of \<open>G\<close> and \<open>A\<close> and fails with
  a ShapeError when the two disagree on \<open>nz\<close> or on the batch size. An absent
  equality block (\<open>neq = 0\<close>) is the empty list, or a batch of matrices without rows.
\<close>

definition shape_error :: error where
  "shape_error = RuntimeError ''ShapeError''"

definition get_sizes :: "bmat \<Rightarrow> bmat \<Rightarrow> error + (nat \<times> nat \<times> nat \<times> nat)" where
  "get_sizes Gm Am =
     (let nBatch = length Gm;
          nineq = (case Gm of [] \<Rightarrow> 0 | g # _ \<Rightarrow> length g);
          nz = (case Gm of [] \<Rightarrow> 0 | g # _ \<Rightarrow> (case g of [] \<Rightarrow> 0 | r # _ \<Rightarrow> length r));
          neq = (case Am of [] \<Rightarrow> 0 | a # _ \<Rightarrow> length a)
      in if neq > 0 \<and> (length Am \<noteq> nBatch \<or> (\<exists>a \<in> set Am. \<exists>r \<in> set a. length r \<noteq> nz))
         then Inl shape_error
         else Inr (nineq, nz, neq, nBatch))"

section \<open>The partial-factorisation solve: \<^verbatim>\<open>solve_kkt\<close>\<close>

record direction =
  dx :: bvec
  ds :: bvec
  dz :: bvec
  dy :: "bvec option"

text \<open>
  \<^verbatim>\<open>
  def solve_kkt(Q_LU, d, G, A, S_LU, rx, rs, rz, ry):
      nineq, nz, neq, nBatch = get_sizes(G, A)
      invQ_rx = rx.btrisolve(*Q_LU)
      if neq > 0:
          h = torch.cat([invQ_rx.unsqueeze(1).bmm(A.transpose(1, 2)).squeeze(1) - ry,
                         invQ_rx.unsqueeze(1).bmm(G.transpose(1, 2)).squeeze(1) + rs / d - rz], 1)
      else:
          h = invQ_rx.unsqueeze(1).bmm(G.transpose(1, 2)).squeeze(1) + rs / d - rz
      w = -(h.btrisolve(*S_LU))
      g1 = -rx - w[:, neq:].unsqueeze(1).bmm(G).squeeze(1)
      if neq > 0:
          g1 -= w[:, :neq].unsqueeze(1).bmm(A).squeeze(1)
      g2 = -rs - w[:, neq:]
      dx = g1.btrisolve(*Q_LU)
      ds = g2 / d
      dz = w[:, neq:]
      dy = w[:, :neq] if neq > 0 else None
      return dx, ds, dz, dy
  \<close>
  \<open>ry\<close> is \<open>None\<close> (or the float \<open>0.0\<close>) where the caller has no equality block.
\<close>

definition solve_kkt ::
  "torch \<Rightarrow> lu \<Rightarrow> bvec \<Rightarrow> bmat \<Rightarrow> bmat \<Rightarrow> lu \<Rightarrow> bvec \<Rightarrow> bvec \<Rightarrow> bvec \<Rightarrow> bvec option
     \<Rightarrow> error + direction" where
  "solve_kkt T Q_LU d Gm Am S_LUv rx rs rz ry =
     (case get_sizes Gm Am of
        Inl e \<Rightarrow> Inl e
      | Inr (nineq, nz, neq, nBatch) \<Rightarrow>
          if has_zero d then Inl NonFinite
          else
            let invQ_rx = btrisolve_vec T rx Q_LU;
                hz = tmap2 (-) (tmap2 (+) (bmv Gm invQ_rx) (tmap2 (/) rs d)) rz
            in case (if neq > 0
                     then (case ry of
                             None \<Rightarrow> Inl TypeError
                           | Some ryv \<Rightarrow> Inr (map2 (@) (tmap2 (-) (bmv Am invQ_rx) ryv) hz))
                     else Inr hz) of
                 Inl e \<Rightarrow> Inl e
               | Inr hh \<Rightarrow>
                   let w = tneg (btrisolve_vec T hh S_LUv);
                       wz = map (drop neq) w;
                       wy = map (take neq) w;
                       g1a = tmap2 (-) (tneg rx) (bvm wz Gm);
                       g1 = (if neq > 0 then tmap2 (-) g1a (bvm wy Am) else g1a);
                       g2 = tmap2 (-) (tneg rs) wz
                   in Inr \<lparr>dx = btrisolve_vec T g1 Q_LU,
                           ds = tmap2 (/) g2 d,
                           dz = wz,
                           dy = (if neq > 0 then Some wy else None)\<rparr>)"

section \<open>The one-time factorisation: \<^verbatim>\<open>pre_factor_kkt\<close>\<close>

definition q_not_psd :: error where
  "q_not_psd = RuntimeError
     ''lcp Error: Cannot perform LU factorization on Q. Please make sure that your Q matrix is PSD and has a non-zero diagonal.''"

text \<open>
  \<^verbatim>\<open>
  def pre_factor_kkt(Q, G, F, A):
      nineq, nz, neq, nBatch = get_sizes(G, A)
      try:
          Q_LU = btrifact_hack(Q)
      except:
          raise RuntimeError("""
  lcp Error: Cannot perform LU factorization on Q.
  Please make sure that your Q matrix is PSD and has
  a non-zero diagonal.
  """)
      G_invQ_GT = torch.bmm(G, G.transpose(1, 2).btrisolve(*Q_LU)) + F
      R = G_invQ_GT.clone()
      S_LU_pivots = torch.IntTensor(range(1, 1 + neq + nineq)).unsqueeze(0) \
          .repeat(nBatch, 1).type_as(Q).int()
      if neq > 0:
          invQ_AT = A.transpose(1, 2).btrisolve(*Q_LU)
          A_invQ_AT = torch.bmm(A, invQ_AT)
          G_invQ_AT = torch.bmm(G, invQ_AT)
          LU_A_invQ_AT = btrifact_hack(A_invQ_AT)
          P_A_invQ_AT, L_A_invQ_AT, U_A_invQ_AT = torch.btriunpack(*LU_A_invQ_AT)
          P_A_invQ_AT = P_A_invQ_AT.type_as(A_invQ_AT)
          S_LU_11 = LU_A_invQ_AT[0]
          U_A_invQ_AT_inv = (P_A_invQ_AT.bmm(L_A_invQ_AT)).btrisolve(*LU_A_invQ_AT)
          S_LU_21 = G_invQ_AT.bmm(U_A_invQ_AT_inv)
          T = G_invQ_AT.transpose(1, 2).btrisolve(*LU_A_invQ_AT)
          S_LU_12 = U_A_invQ_AT.bmm(T)
          S_LU_22 = torch.zeros(nBatch, nineq, nineq).type_as(Q)
          S_LU_data = torch.cat((torch.cat((S_LU_11, S_LU_12), 2),
                                 torch.cat((S_LU_21, S_LU_22), 2)), 1)
          S_LU_pivots[:, :neq] = LU_A_invQ_AT[1]
          R -= G_invQ_AT.bmm(T)
      else:
          S_LU_data = torch.zeros(nBatch, nineq, nineq).type_as(Q)
      S_LU = [S_LU_data, S_LU_pivots]
      return Q_LU, S_LU, R
  \<close>
  The message of the RuntimeError is kept on one line. \<open>F\<close> is optional in
  \<open>forward\<close>; here \<open>... + F\<close> with \<open>F = None\<close> is a TypeError. The second component
  of the result is the global \<open>shown_btrifact_warning\<close> afterwards.
\<close>

definition pre_factor_kkt ::
  "torch \<Rightarrow> bool \<Rightarrow> bmat \<Rightarrow> bmat \<Rightarrow> bmat option \<Rightarrow> bmat \<Rightarrow> (error + lu \<times> lu \<times> bmat) \<times> bool" where
  "pre_factor_kkt T shown Qm Gm Fm Am =
     (case get_sizes Gm Am of
        Inl e \<Rightarrow> (Inl e, shown)
      | Inr (nineq, nz, neq, nBatch) \<Rightarrow>
          (case btrifact_hack T shown Qm of
             (None, shown1) \<Rightarrow> (Inl q_not_psd, shown1)
           | (Some Q_LU, shown1) \<Rightarrow>
               (case Fm of
                  None \<Rightarrow> (Inl TypeError, shown1)
                | Some Fv \<Rightarrow>
                    let G_invQ_GT = madd (bmm Gm (btrisolve_mat T (btranspose Gm) Q_LU)) Fv;
                        S_LU_pivots = replicate nBatch (map int [1 ..< 1 + neq + nineq])
                    in if neq > 0 then
                         let invQ_AT = btrisolve_mat T (btranspose Am) Q_LU;
                             A_invQ_AT = bmm Am invQ_AT;
                             G_invQ_AT = bmm Gm invQ_AT
                         in (case btrifact_hack T shown1 A_invQ_AT of
                               (None, shown2) \<Rightarrow> (Inl btrifact_error, shown2)
                             | (Some LU_A, shown2) \<Rightarrow>
                                 let P_A = unpack_P T LU_A;
                                     L_A = unpack_L T LU_A;
                                     U_A = unpack_U T LU_A;
                                     S_LU_11 = fst LU_A;
                                     U_A_inv = btrisolve_mat T (bmm P_A L_A) LU_A;
                                     S_LU_21 = bmm G_invQ_AT U_A_inv;
                                     Tm = btrisolve_mat T (btranspose G_invQ_AT) LU_A;
                                     S_LU_12 = bmm U_A Tm;
                                     S_LU_22 = zeros3 nBatch nineq nineq;
                                     S_LU_data = map2 (@) (map2 (map2 (@)) S_LU_11 S_LU_12)
                                                          (map2 (map2 (@)) S_LU_21 S_LU_22);
                                     pivots = map2 (\<lambda>row new. new @ drop neq row) S_LU_pivots (snd LU_A)
                                 in (Inr (Q_LU, (S_LU_data, pivots), msub G_invQ_GT (bmm G_invQ_AT Tm)),
                                     shown2))
                       else (Inr (Q_LU, (zeros3 nBatch nineq nineq, S_LU_pivots), G_invQ_GT), shown1))))"

section \<open>A backend for scalar problems\<close>

text \<open>
  To run the solver inside the logic, \<open>lu1\<close> is the backend restricted to batches of
  \<open>1 \<times> 1\<close> matrices, where LU factorisation is exact: \<open>[a] = [1] [1] [a]\<close> with pivot 1,
  and it fails on \<open>a = 0\<close> (and on every larger matrix, which it does not cover).
\<close>

definition scalar_batch :: "bmat \<Rightarrow> bool" where
  "scalar_batch x = (\<forall>m \<in> set x. case m of [[a]] \<Rightarrow> a \<noteq> 0 | _ \<Rightarrow> False)"

definition lu1_solve_row :: "vec \<Rightarrow> mat \<Rightarrow> vec" where
  "lu1_solve_row row m = (case m of [[a]] \<Rightarrow> map (\<lambda>c. c / a) row | _ \<Rightarrow> row)"

definition lu1 :: torch where
  "lu1 = \<lparr>btrifact = (\<lambda>pivot x. if scalar_batch x then Some (x, map (\<lambda>_. [1]) x) else None),
          btrisolve_vec = (\<lambda>b f. map2 lu1_solve_row b (fst f)),
          btrisolve_mat = (\<lambda>b f. map2 (\<lambda>bm m. map (\<lambda>row. lu1_solve_row row m) bm) b (fst f)),
          unpack_P = (\<lambda>f. map (\<lambda>_. [[1]]) (fst f)),
          unpack_L = (\<lambda>f. map (\<lambda>_. [[1]]) (fst f)),
          unpack_U = fst,
          accepts_pivot = True,
          is_cuda = False\<rparr>"


section \<open>The iteration controller: \<^verbatim>\<open>forward\<close>\<close>

datatype KKTSolvers =
  LU_FULL | SP_LU_FULL | LU_PARTIAL | IR_UNOPT | SP_IR_UNOPT | IR_INVERSE | SP_IR_INVERSE

record problem =
  prob_Q :: bmat
  prob_p :: bvec
  prob_G :: bmat
  prob_h :: bvec
  prob_A :: bmat
  prob_b :: "bvec option"
  prob_F :: "bmat option"

record options =
  eps :: real
  verbose :: int
  notImprovedLim :: int
  maxIter :: int
  solver :: KKTSolvers

record iterate =
  it_x :: bvec
  it_s :: bvec
  it_z :: bvec
  it_y :: "bvec option"

text \<open>
  The dictionary \<open>best\<close>: all its entries are \<open>None\<close> until the first iteration
  fills them together, so it is an optional record (\<open>t_y\<close> stays \<open>None\<close> without
  equality constraints).
\<close>

record tracked =
  t_resids :: "real list"
  t_x :: bvec
  t_z :: bvec
  t_s :: bvec
  t_y :: "bvec option"

record lstate =
  cur :: iterate
  best :: "tracked option"
  nNotImproved :: int

text \<open>What \<open>forward\<close> returns, and whether it printed \<open>INACC_ERR\<close>.\<close>

record result =
  res_x :: "bvec option"
  res_y :: "bvec option"
  res_z :: "bvec option"
  res_s :: "bvec option"
  warned :: bool

fun ebind :: "error + 'a \<Rightarrow> ('a \<Rightarrow> error + 'b) \<Rightarrow> error + 'b" where
  "ebind (Inl e) f = Inl e"
| "ebind (Inr a) f = f a"

text \<open>
  The six strategies other than \<open>LU_PARTIAL\<close> assemble the same system and hand it
  to dense, sparse or inverse solvers (\<open>factor_solve_kkt\<close>, \<open>solve_kkt_ir\<close>, ...,
  partly on scipy). The controller sees only the direction they return or the
  exception they raise, so they enter as one function of the strategy, the
  reweighting \<open>d\<close> (all ones at the start) and the right-hand side.
\<close>

type_synonym alt_solver =
  "KKTSolvers \<Rightarrow> bvec \<Rightarrow> bvec \<Rightarrow> bvec \<Rightarrow> bvec \<Rightarrow> bvec option \<Rightarrow> error + direction"

definition kkt_direction ::
  "torch \<Rightarrow> alt_solver \<Rightarrow> problem \<Rightarrow> lu \<Rightarrow> heap \<Rightarrow> KKTSolvers
     \<Rightarrow> bvec \<Rightarrow> bvec \<Rightarrow> bvec \<Rightarrow> bvec \<Rightarrow> bvec option \<Rightarrow> error + direction" where
  "kkt_direction T alt P Q_LUv hp slv d rx rs rz ry =
     (if slv = LU_PARTIAL
      then solve_kkt T Q_LUv d (prob_G P) (prob_A P) (S_LU hp) rx rs rz ry
      else alt slv d rx rs rz ry)"

text \<open>
  \<^verbatim>\<open>
  M = torch.min(s, 1)[0].repeat(1, nineq)
  I = M <= 0
  s[I] -= M[I] - 1
  \<close>
\<close>

definition shift_positive :: "bvec \<Rightarrow> error + bvec" where
  "shift_positive v =
     (case those_rows (map min_row v) of
        None \<Rightarrow> Inl (RuntimeError ''min over an empty dimension'')
      | Some ms \<Rightarrow> Inr (map2 (\<lambda>row m. if m \<le> 0 then map (\<lambda>c. c - (m - 1)) row else row) v ms))"

definition start :: "error + direction \<Rightarrow> error + iterate" where
  "start r =
     ebind r (\<lambda>dir.
     ebind (shift_positive (ds dir)) (\<lambda>sv.
     ebind (shift_positive (dz dir)) (\<lambda>zv.
       Inr \<lparr>it_x = dx dir, it_s = sv, it_z = zv, it_y = dy dir\<rparr>)))"

text \<open>Lines 65 to 173: the initial solve with \<open>d = 1\<close> and the shift.\<close>

definition initialize ::
  "torch \<Rightarrow> alt_solver \<Rightarrow> problem \<Rightarrow> lu \<Rightarrow> heap \<Rightarrow> KKTSolvers \<Rightarrow> (error + iterate) \<times> heap" where
  "initialize T alt P Q_LUv hp slv =
     (case get_sizes (prob_G P) (prob_A P) of
        Inl e \<Rightarrow> (Inl e, hp)
      | Inr (nineq, nz, neq, nBatch) \<Rightarrow>
          if slv = LU_PARTIAL then
            (case factor_kkt T hp (ones2 nBatch nineq) of
               (Some e, hp') \<Rightarrow> (Inl e, hp')
             | (None, hp') \<Rightarrow>
                 (start
                    (ebind (if neq > 0
                            then (case prob_b P of None \<Rightarrow> Inl TypeError
                                  | Some bv \<Rightarrow> Inr (Some (tneg bv)))
                            else Inr None) (\<lambda>ry.
                       solve_kkt T Q_LUv (ones2 nBatch nineq) (prob_G P) (prob_A P) (S_LU hp')
                         (prob_p P) (zeros2 nBatch nineq) (tneg (prob_h P)) ry)), hp'))
          else
            (start (alt slv (ones2 nBatch nineq) (prob_p P) (zeros2 nBatch nineq)
                      (tneg (prob_h P)) (map_option tneg (prob_b P))), hp))"

text \<open>Lines 180 to 195: the residuals, the duality measure and the combined residual.\<close>

record resid =
  r_x :: bvec
  r_s :: bvec
  r_z :: bvec
  r_y :: "bvec option"
  r_mu :: "real list"
  r_resids :: "real list"

text \<open>\<open>mu = torch.abs((s * z).sum(1).squeeze() / nineq)\<close>\<close>

definition duality_measure :: "nat \<Rightarrow> bvec \<Rightarrow> bvec \<Rightarrow> error + real list" where
  "duality_measure nineq sv zv =
     (if nineq = 0 then Inl NonFinite
      else Inr (map (\<lambda>row. \<bar>sum_list row / real nineq\<bar>) (tmap2 (*) sv zv)))"

definition residuals :: "problem \<Rightarrow> iterate \<Rightarrow> error + resid" where
  "residuals P it =
     ebind (get_sizes (prob_G P) (prob_A P)) (\<lambda>(nineq, nz, neq, nBatch).
     ebind (if neq > 0
            then (case it_y it of None \<Rightarrow> Inl AttributeError
                  | Some yv \<Rightarrow> Inr (tmap2 (+) (bvm yv (prob_A P)) (bvm (it_z it) (prob_G P))))
            else Inr (bvm (it_z it) (prob_G P))) (\<lambda>yA_zG.
     let rx = tmap2 (+) (tmap2 (+) yA_zG (bmv (prob_Q P) (it_x it))) (prob_p P);
         rs = it_z it;
         rz0 = tmap2 (-) (tmap2 (+) (bmv (prob_G P) (it_x it)) (it_s it)) (prob_h P);
         rz = (case prob_F P of None \<Rightarrow> rz0 | Some Fv \<Rightarrow> tmap2 (-) rz0 (bmv Fv (it_z it)))
     in
     ebind (if neq > 0
            then (case prob_b P of None \<Rightarrow> Inl TypeError
                  | Some bv \<Rightarrow> Inr (Some (tmap2 (-) (bmv (prob_A P) (it_x it)) bv)))
            else Inr None) (\<lambda>ry.
     ebind (duality_measure nineq (it_s it) (it_z it)) (\<lambda>mu.
     let z_resid = map norm2 rz;
         pri_resid = (case ry of None \<Rightarrow> z_resid | Some ryv \<Rightarrow> map2 (+) (map norm2 ryv) z_resid);
         dual_resid = map norm2 rx;
         resids = map2 (+) (map2 (+) pri_resid dual_resid) (map ((*) (real nineq)) mu)
     in Inr \<lparr>r_x = rx, r_s = rs, r_z = rz, r_y = ry, r_mu = mu, r_resids = resids\<rparr>))))"

text \<open>Lines 207 to 228: the best iterate per batch element and the stall counter.\<close>

definition select_rows :: "bool list \<Rightarrow> 'a list \<Rightarrow> 'a list \<Rightarrow> 'a list" where
  "select_rows I new old = map (\<lambda>(i, n, old). if i then n else old) (zip I (zip new old))"

definition track_best ::
  "nat \<Rightarrow> iterate \<Rightarrow> real list \<Rightarrow> tracked option \<Rightarrow> int \<Rightarrow> error + tracked \<times> int" where
  "track_best neq it resids bst nNI =
     (case bst of
        None \<Rightarrow> Inr (\<lparr>t_resids = resids, t_x = it_x it, t_z = it_z it, t_s = it_s it,
                        t_y = it_y it\<rparr>, 0)
      | Some t \<Rightarrow>
          let I = map2 (<) resids (t_resids t);
              nNI' = (if \<exists>i \<in> set I. i then 0 else nNI + 1)
          in ebind (if neq > 0
                    then (case (t_y t, it_y it) of
                            (Some byv, Some yv) \<Rightarrow> Inr (Some (select_rows I yv byv))
                          | _ \<Rightarrow> Inl TypeError)
                    else Inr (t_y t)) (\<lambda>ty.
               Inr (\<lparr>t_resids = select_rows I resids (t_resids t),
                      t_x = select_rows I (it_x it) (t_x t),
                      t_z = select_rows I (it_z it) (t_z t),
                      t_s = select_rows I (it_s it) (t_s t),
                      t_y = ty\<rparr>, nNI')))"

text \<open>
  Line 229:
  \<^verbatim>\<open>nNotImproved == notImprovedLim or best['resids'].max() < eps or mu.min() > 1e100\<close>
\<close>

definition stop_now :: "int \<Rightarrow> int \<Rightarrow> real list \<Rightarrow> real \<Rightarrow> real list \<Rightarrow> error + bool" where
  "stop_now nNI nlim br e mu =
     (if nNI = nlim then Inr True
      else case max_all br of
             None \<Rightarrow> Inl (RuntimeError ''max of an empty tensor'')
           | Some m \<Rightarrow>
               if m < e then Inr True
               else case min_row mu of
                      None \<Rightarrow> Inl (RuntimeError ''min of an empty tensor'')
                    | Some mm \<Rightarrow> Inr (mm > 10 ^ 100))"

text \<open>
  Lines 230 to 232 and 339 to 341:
  \<^verbatim>\<open>if best['resids'].max() > 1. and verbose >= 0: print(INACC_ERR)\<close>
\<close>

definition inaccurate :: "real list \<Rightarrow> int \<Rightarrow> error + bool" where
  "inaccurate br vb =
     (case max_all br of
        None \<Rightarrow> Inl (RuntimeError ''max of an empty tensor'')
      | Some m \<Rightarrow> Inr (m > 1 \<and> vb \<ge> 0))"

text \<open>\<open>return best['x'], best['y'], best['z'], best['s']\<close>\<close>

definition of_best :: "tracked option \<Rightarrow> bool \<Rightarrow> result" where
  "of_best bst w =
     \<lparr>res_x = map_option t_x bst,
      res_y = (case bst of None \<Rightarrow> None | Some t \<Rightarrow> t_y t),
      res_z = map_option t_z bst,
      res_s = map_option t_s bst,
      warned = w\<rparr>"


text \<open>\<open>c.repeat(nineq, 1).t() + t\<close>: the batch element's number added to each entry of its row.\<close>

definition add_rows :: "real list \<Rightarrow> bvec \<Rightarrow> bvec" where
  "add_rows cs t = map2 (\<lambda>c row. map ((+) c) row) cs t"

text \<open>
  Lines 271 to 285: the affine step length, the centering parameter and the
  right-hand side of the corrector solve.
  \<^verbatim>\<open>
  alpha = torch.min(torch.min(get_step(z, dz_aff), get_step(s, ds_aff)),
                    torch.ones(nBatch).type_as(Q))
  alpha_nineq = alpha.repeat(nineq, 1).t()
  t1 = s + alpha_nineq * ds_aff
  t2 = z + alpha_nineq * dz_aff
  t3 = torch.sum(t1 * t2, 1).squeeze()
  t4 = torch.sum(s * z, 1).squeeze()
  sig = (t3 / t4)**3
  rx = torch.zeros(nBatch, nz).type_as(Q)
  rs = ((-mu * sig).repeat(nineq, 1).t() + ds_aff * dz_aff) / s
  rz = torch.zeros(nBatch, nineq).type_as(Q)
  ry = torch.zeros(nBatch, neq).type_as(Q)
  \<close>
\<close>

record centre =
  c_alpha :: "real list"
  c_sig :: "real list"
  c_rx :: bvec
  c_rs :: bvec
  c_rz :: bvec
  c_ry :: "bvec option"

definition centering ::
  "nat \<times> nat \<times> nat \<times> nat \<Rightarrow> iterate \<Rightarrow> real list \<Rightarrow> direction \<Rightarrow> error + centre" where
  "centering ns it mu aff =
     (case ns of (nineq, nz, neq, nBatch) \<Rightarrow>
        ebind (get_step (it_z it) (dz aff)) (\<lambda>step_z.
        ebind (get_step (it_s it) (ds aff)) (\<lambda>step_s.
        let alpha = map2 min (map2 min step_z step_s) (replicate nBatch 1);
            t1 = tmap2 (+) (it_s it) (scale_rows alpha (ds aff));
            t2 = tmap2 (+) (it_z it) (scale_rows alpha (dz aff));
            t3 = map sum_list (tmap2 (*) t1 t2);
            t4 = map sum_list (tmap2 (*) (it_s it) (it_z it))
        in if 0 \<in> set t4 \<or> has_zero (it_s it) then Inl NonFinite
           else
             let sig = map2 (\<lambda>a b. (a / b) ^ 3) t3 t4;
                 rs = tmap2 (/) (add_rows (map2 (\<lambda>m sg. - m * sg) mu sig)
                                    (tmap2 (*) (ds aff) (dz aff))) (it_s it)
             in Inr \<lparr>c_alpha = alpha, c_sig = sig, c_rx = zeros2 nBatch nz, c_rs = rs,
                     c_rz = zeros2 nBatch nineq, c_ry = Some (zeros2 nBatch neq)\<rparr>)))"

text \<open>
  Lines 323 to 337: the combined direction, the damped step length and the update.
  \<^verbatim>\<open>
  dx = dx_aff + dx_cor
  ds = ds_aff + ds_cor
  dz = dz_aff + dz_cor
  dy = dy_aff + dy_cor if neq > 0 else None
  alpha = torch.min(0.999 * torch.min(get_step(z, dz), get_step(s, ds)),
                    torch.ones(nBatch).type_as(Q))
  alpha_nineq = alpha.repeat(nineq, 1).t()
  alpha_neq = alpha.repeat(neq, 1).t() if neq > 0 else None
  alpha_nz = alpha.repeat(nz, 1).t()
  x += alpha_nz * dx
  s += alpha_nineq * ds
  z += alpha_nineq * dz
  y = y + alpha_neq * dy if neq > 0 else None
  \<close>
\<close>

definition damped_alpha :: "nat \<Rightarrow> real list \<Rightarrow> real list \<Rightarrow> real list" where
  "damped_alpha nBatch step_z step_s =
     map2 min (map ((*) (999 / 1000)) (map2 min step_z step_s)) (replicate nBatch 1)"

definition take_step ::
  "nat \<times> nat \<times> nat \<times> nat \<Rightarrow> iterate \<Rightarrow> direction \<Rightarrow> direction \<Rightarrow> error + iterate" where
  "take_step ns it aff cor =
     (case ns of (nineq, nz, neq, nBatch) \<Rightarrow>
        let dxv = tmap2 (+) (dx aff) (dx cor);
            dsv = tmap2 (+) (ds aff) (ds cor);
            dzv = tmap2 (+) (dz aff) (dz cor)
        in
        ebind (if neq > 0
               then (case (dy aff, dy cor) of
                       (Some a, Some c) \<Rightarrow> Inr (Some (tmap2 (+) a c))
                     | _ \<Rightarrow> Inl TypeError)
               else Inr None) (\<lambda>dyv.
        ebind (get_step (it_z it) dzv) (\<lambda>step_z.
        ebind (get_step (it_s it) dsv) (\<lambda>step_s.
        let alpha = damped_alpha nBatch step_z step_s in
        ebind (if neq > 0
               then (case (it_y it, dyv) of
                       (Some yv, Some dyw) \<Rightarrow> Inr (Some (tmap2 (+) yv (scale_rows alpha dyw)))
                     | _ \<Rightarrow> Inl TypeError)
               else Inr None) (\<lambda>yv'.
          Inr \<lparr>it_x = tmap2 (+) (it_x it) (scale_rows alpha dxv),
                it_s = tmap2 (+) (it_s it) (scale_rows alpha dsv),
                it_z = tmap2 (+) (it_z it) (scale_rows alpha dzv),
                it_y = yv'\<rparr>)))))"

text \<open>
  Lines 207 to 233: tracking and the termination check. \<open>Inl\<close> of the inner sum is
  the tuple returned at line 233, \<open>Inr\<close> the tracking state the iteration goes on with.
\<close>

definition check_stop ::
  "options \<Rightarrow> nat \<Rightarrow> lstate \<Rightarrow> resid \<Rightarrow> error + (result + tracked \<times> int)" where
  "check_stop opts neq st r =
     ebind (track_best neq (cur st) (r_resids r) (best st) (nNotImproved st)) (\<lambda>(bst, nNI).
     ebind (stop_now nNI (notImprovedLim opts) (t_resids bst) (eps opts) (r_mu r)) (\<lambda>stop.
       if stop
       then ebind (inaccurate (t_resids bst) (verbose opts)) (\<lambda>w. Inr (Inl (of_best (Some bst) w)))
       else Inr (Inr (bst, nNI))))"

text \<open>Lines 235 to 337: the two solves and the update.\<close>

definition advance ::
  "torch \<Rightarrow> alt_solver \<Rightarrow> problem \<Rightarrow> lu \<Rightarrow> options \<Rightarrow> nat \<times> nat \<times> nat \<times> nat
     \<Rightarrow> heap \<Rightarrow> iterate \<Rightarrow> resid \<Rightarrow> bvec \<Rightarrow> error + iterate" where
  "advance T alt P Q_LUv opts ns hp it r d =
     ebind (kkt_direction T alt P Q_LUv hp (solver opts) d (r_x r) (r_s r) (r_z r) (r_y r)) (\<lambda>aff.
     ebind (centering ns it (r_mu r) aff) (\<lambda>c.
     ebind (kkt_direction T alt P Q_LUv hp (solver opts) d (c_rx c) (c_rs c) (c_rz c) (c_ry c)) (\<lambda>cor.
       take_step ns it aff cor)))"

text \<open>
  One pass through the body of \<open>for i in range(maxIter)\<close>. The bare \<open>except\<close> around
  \<open>factor_kkt\<close> (lines 198 to 202) returns the entries of \<open>best\<close> as they are, without
  a warning. The progress line printed for \<open>verbose == 1\<close> is not modelled.
\<close>

definition iteration ::
  "torch \<Rightarrow> alt_solver \<Rightarrow> problem \<Rightarrow> lu \<Rightarrow> options \<Rightarrow> nat \<times> nat \<times> nat \<times> nat
     \<Rightarrow> lstate \<Rightarrow> heap \<Rightarrow> (error + (result + lstate)) \<times> heap" where
  "iteration T alt P Q_LUv opts ns st hp =
     (case residuals P (cur st) of
        Inl e \<Rightarrow> (Inl e, hp)
      | Inr r \<Rightarrow>
          if has_zero (it_s (cur st)) then (Inl NonFinite, hp)
          else
            let d = tmap2 (/) (it_z (cur st)) (it_s (cur st));
                (fk, hp') = (if solver opts = LU_PARTIAL then factor_kkt T hp d else (None, hp))
            in case fk of
                 Some e \<Rightarrow>
                   (if e = NonFinite then Inl NonFinite else Inr (Inl (of_best (best st) False)), hp')
               | None \<Rightarrow>
                   (ebind (check_stop opts (fst (snd (snd ns))) st r) (\<lambda>c.
                      case c of
                        Inl res \<Rightarrow> Inr (Inl res)
                      | Inr (bst, nNI) \<Rightarrow>
                          ebind (advance T alt P Q_LUv opts ns hp' (cur st) r d) (\<lambda>it'.
                            Inr (Inr \<lparr>cur = it', best = Some bst, nNotImproved = nNI\<rparr>))), hp'))"

text \<open>
  The loop, and lines 339 to 342 once \<open>range(maxIter)\<close> is used up:
  \<open>best['resids'].max()\<close> on an untouched \<open>best\<close> is an AttributeError.
\<close>

fun loop ::
  "torch \<Rightarrow> alt_solver \<Rightarrow> problem \<Rightarrow> lu \<Rightarrow> options \<Rightarrow> nat \<times> nat \<times> nat \<times> nat
     \<Rightarrow> nat \<Rightarrow> lstate \<Rightarrow> heap \<Rightarrow> (error + result) \<times> heap" where
  "loop T alt P Q_LUv opts ns 0 st hp =
     (case best st of
        None \<Rightarrow> (Inl AttributeError, hp)
      | Some t \<Rightarrow>
          (ebind (inaccurate (t_resids t) (verbose opts)) (\<lambda>w. Inr (of_best (Some t) w)), hp))"
| "loop T alt P Q_LUv opts ns (Suc n) st hp =
     (case iteration T alt P Q_LUv opts ns st hp of
        (Inl e, hp') \<Rightarrow> (Inl e, hp')
      | (Inr (Inl res), hp') \<Rightarrow> (Inr res, hp')
      | (Inr (Inr st'), hp') \<Rightarrow> loop T alt P Q_LUv opts ns n st' hp')"

text \<open>
  \<^verbatim>\<open>
  def forward(Q, p, G, h, A, b, F, Q_LU, S_LU, R,
              eps=1e-12, verbose=0, notImprovedLim=3,
              maxIter=20, solver=KKTSolvers.LU_PARTIAL):
  \<close>
  \<open>S_LU\<close> and \<open>R\<close> are in the heap, which is returned as the call leaves it.
\<close>

definition forward ::
  "torch \<Rightarrow> alt_solver \<Rightarrow> problem \<Rightarrow> lu \<Rightarrow> heap \<Rightarrow> options \<Rightarrow> (error + result) \<times> heap" where
  "forward T alt P Q_LUv hp opts =
     (case get_sizes (prob_G P) (prob_A P) of
        Inl e \<Rightarrow> (Inl e, hp)
      | Inr ns \<Rightarrow>
          (case initialize T alt P Q_LUv hp (solver opts) of
             (Inl e, hp') \<Rightarrow> (Inl e, hp')
           | (Inr it, hp') \<Rightarrow>
               loop T alt P Q_LUv opts ns (nat (maxIter opts))
                 \<lparr>cur = it, best = None, nNotImproved = 0\<rparr> hp'))"

text \<open>The default keyword arguments, and no alternative strategy.\<close>

definition default_options :: options where
  "default_options =
     \<lparr>eps = 1 / 10 ^ 12, verbose = 0, notImprovedLim = 3, maxIter = 20, solver = LU_PARTIAL\<rparr>"

definition no_alt :: alt_solver where
  "no_alt slv d rx rs rz ry = Inl AssertionError"

section \<open>Predicates and instances used in the statements\<close>





text \<open>
  Two scalar problems (\<open>nz = nineq = nBatch = 1\<close>, no equality constraints), with the
  factors \<open>pre_factor_kkt\<close> computes for them on the scalar backend. \<open>scalar_A\<close> is
  the spec's Scenario A in one variable: minimise \<open>x\<^sup>2 / 2 + x\<close> subject to \<open>- x \<le> 0\<close>.
  \<open>scalar_D\<close> has a coupling \<open>F = -3\<close> that makes the reweighted block \<open>R + 1/d\<close>
  singular at the first iterate (the spec's Scenario D).
\<close>

definition scalar_Q_LU :: lu where
  "scalar_Q_LU = ([[[1]]], [[1]])"

definition scalar_A :: problem where
  "scalar_A = \<lparr>prob_Q = [[[1]]], prob_p = [[1]], prob_G = [[[- 1]]], prob_h = [[0]],
                prob_A = [], prob_b = None, prob_F = Some [[[0]]]\<rparr>"

definition scalar_A_heap :: heap where
  "scalar_A_heap = \<lparr>shown_btrifact_warning = False, factor_kkt_eye = None,
                     S_LU = ([[[0]]], [[1]]), R = [[[1]]]\<rparr>"

definition scalar_D :: problem where
  "scalar_D = \<lparr>prob_Q = [[[1]]], prob_p = [[0]], prob_G = [[[1]]], prob_h = [[- 2]],
                prob_A = [], prob_b = None, prob_F = Some [[[- 3]]]\<rparr>"

definition scalar_D_heap :: heap where
  "scalar_D_heap = \<lparr>shown_btrifact_warning = False, factor_kkt_eye = None,
                     S_LU = ([[[0]]], [[1]]), R = [[[- 2]]]\<rparr>"

text \<open>
  The duality measure as the specification words it: \<open>mu = mean(s\<cdot>z) / nineq\<close>, the mean
  of the componentwise products divided again by \<open>nineq\<close>.
\<close>

definition mean :: "vec \<Rightarrow> real" where
  "mean v = sum_list v / real (length v)"

definition spec_duality_measure :: "nat \<Rightarrow> bvec \<Rightarrow> bvec \<Rightarrow> real list" where
  "spec_duality_measure nineq sv zv = map (\<lambda>row. mean row / real nineq) (tmap2 (*) sv zv)"

text \<open>
  \<open>scalar_S\<close>: the coupling \<open>F = -2\<close> makes \<open>R + 1/d\<close> singular already for the
  initial \<open>d = 1\<close>.
\<close>

definition scalar_S :: problem where
  "scalar_S = \<lparr>prob_Q = [[[1]]], prob_p = [[0]], prob_G = [[[1]]], prob_h = [[- 2]],
                prob_A = [], prob_b = None, prob_F = Some [[[- 2]]]\<rparr>"

definition scalar_S_heap :: heap where
  "scalar_S_heap = \<lparr>shown_btrifact_warning = False, factor_kkt_eye = None,
                     S_LU = ([[[0]]], [[1]]), R = [[[- 1]]]\<rparr>"

text \<open>
  The centering parameter and the slack row of the corrector's right-hand side as the
  specification words them, for one batch element:
  \<open>sigma = ((s + alpha ds_aff) \<cdot> (z + alpha dz_aff) / (s \<cdot> z))\<^sup>3\<close> and
  \<open>rs = (- mu sigma + ds_aff dz_aff) / s\<close>.
\<close>

definition spec_sigma :: "real \<Rightarrow> vec \<Rightarrow> vec \<Rightarrow> vec \<Rightarrow> vec \<Rightarrow> real" where
  "spec_sigma alpha sv dsv zv dzv =
     (dot (map2 (\<lambda>si dsi. si + alpha * dsi) sv dsv) (map2 (\<lambda>zi dzi. zi + alpha * dzi) zv dzv)
        / dot sv zv) ^ 3"

definition spec_corrector_rs :: "real \<Rightarrow> real \<Rightarrow> vec \<Rightarrow> vec \<Rightarrow> vec \<Rightarrow> vec" where
  "spec_corrector_rs mu sigma sv dsv dzv =
     map (\<lambda>(si, dsi, dzi). (- mu * sigma + dsi * dzi) / si) (zip sv (zip dsv dzv))"

text \<open>
  Reading the blocks of \<open>S_LU\<close>: the rows above the last \<open>nineq\<close> ones
  (\<open>S_LU[0][b, :-nineq, :]\<close>, the blocks 11 and 12), the pivots before the last
  \<open>nineq\<close> ones, and the lower-right block \<open>S_LU[0][b, -nineq:, -nineq:]\<close>.
\<close>

definition top_rows :: "nat \<Rightarrow> 'a list \<Rightarrow> 'a list" where
  "top_rows nineq m = take (tail_start nineq (length m)) m"

definition block22 :: "nat \<Rightarrow> mat \<Rightarrow> mat" where
  "block22 nineq m =
     map (\<lambda>row. drop (tail_start nineq (length row)) row) (drop (tail_start nineq (length m)) m)"

definition width :: "bvec \<Rightarrow> nat" where
  "width d = (case d of [] \<Rightarrow> 0 | r # _ \<Rightarrow> length r)"

text \<open>\<open>R + diag(1 / d)\<close>, the matrix \<open>factor_kkt\<close> factorises.\<close>

definition reweighted :: "bmat \<Rightarrow> bvec \<Rightarrow> bmat" where
  "reweighted Rm d = map2 (add_diag 0) Rm (map (map (\<lambda>c. 1 / c)) d)"


section \<open>Properties of the step length\<close>

lemma fold_max_mem: "fold max cs (c::real) \<in> set (c # cs)"
proof (induction cs arbitrary: c)
  case Nil then show ?case by simp
next
  case (Cons d cs)
  from Cons[of "max d c"] show ?case by (auto simp: max_def split: if_splits)
qed

lemma fold_min_foldr: "min b (fold min cs (c::real)) = foldr min (c # cs) b"
proof (induction cs arbitrary: c)
  case Nil then show ?case by (simp add: min.commute)
next
  case (Cons d cs)
  have "min b (fold min cs (min d c)) = foldr min (min d c # cs) b" by (rule Cons)
  then show ?case by (simp add: min.assoc min.left_commute min.commute)
qed

lemma fold_min_mem: "fold min cs (c::real) \<in> set (c # cs)"
proof (induction cs arbitrary: c)
  case Nil then show ?case by simp
next
  case (Cons d cs)
  from Cons[of "min d c"] show ?case by (auto simp: min_def split: if_splits)
qed

lemma those_rows_min:
  "[] \<notin> set a \<Longrightarrow> those_rows (map min_row a) = Some (map (\<lambda>r. fold min (tl r) (hd r)) a)"
proof (induction a)
  case Nil then show ?case by simp
next
  case (Cons r a)
  then obtain c cs where "r = c # cs" by (cases r) auto
  with Cons show ?case by simp
qed


lemma map2_map2: "map2 f (map2 g xs ys) ys = map2 (\<lambda>x y. f (g x y) y) xs ys"
  by (induction xs ys rule: list_induct2') auto

lemma get_step_rows:
  "tmap2 (\<lambda>ai dvi. if dvi > 0 then m else ai) (tmap2 (\<lambda>vi dvi. - vi / dvi) v dv) dv
     = map2 (ratio_row m) v dv"
  unfolding tmap2_def ratio_row_def
  by (induction v dv rule: list_induct2') (auto simp: map2_map2)

lemma spec_fold_le1:
  "foldr (\<lambda>(vi, dvi) acc. if dvi < 0 then min (- vi / dvi) acc else acc) zs (1::real) \<le> 1"
  by (induction zs) (auto simp: min_def)

lemma ratio_row_spec:
  assumes "1 \<le> (m::real)" and "\<forall>(vi, dvi) \<in> set zs. dvi \<noteq> (0::real)"
  shows "foldr min (map (\<lambda>(vi, dvi). if dvi > 0 then m else - vi / dvi) zs) 1
           = foldr (\<lambda>(vi, dvi) acc. if dvi < 0 then min (- vi / dvi) acc else acc) zs 1"
  using assms(2)
proof (induction zs)
  case Nil then show ?case by simp
next
  case (Cons p zs)
  obtain vi dvi where p: "p = (vi, dvi)" by (cases p)
  from Cons.prems p have nz: "dvi \<noteq> 0" by simp
  from Cons have IH: "foldr min (map (\<lambda>(vi, dvi). if dvi > 0 then m else - vi / dvi) zs) 1
           = foldr (\<lambda>(vi, dvi) acc. if dvi < 0 then min (- vi / dvi) acc else acc) zs 1"
    by simp
  show ?case
  proof (cases "dvi > 0")
    case True
    have "foldr (\<lambda>(vi, dvi) acc. if dvi < 0 then min (- vi / dvi) acc else acc) zs 1 \<le> m"
      using spec_fold_le1[of zs] assms(1) by linarith
    then have "min m (foldr (\<lambda>(vi, dvi) acc. if dvi < 0 then min (- vi / dvi) acc else acc) zs 1)
                 = foldr (\<lambda>(vi, dvi) acc. if dvi < 0 then min (- vi / dvi) acc else acc) zs 1"
      by (rule min_absorb2)
    with True IH p show ?thesis by simp
  next
    case False
    with nz have "dvi < 0" by simp
    with IH p show ?thesis by simp
  qed
qed

lemma ratio_row_clamped:
  assumes "1 \<le> m" and "0 \<notin> set dr" and "vr \<noteq> []" and "length vr = length dr"
  shows "min 1 (fold min (tl (ratio_row m vr dr)) (hd (ratio_row m vr dr))) = spec_step_row vr dr"
proof -
  let ?r = "ratio_row m vr dr"
  have len: "length ?r = length vr" using assms(4) by (simp add: ratio_row_def)
  with assms(3) obtain c cs where r: "?r = c # cs" by (cases ?r) auto
  have nz: "\<forall>(vi, dvi) \<in> set (zip vr dr). dvi \<noteq> 0"
    using assms(2) by (auto dest: set_zip_rightD)
  have "min 1 (fold min cs c) = foldr min ?r 1" using r by (simp add: fold_min_foldr)
  also have "?r = map (\<lambda>(vi, dvi). if dvi > 0 then m else - vi / dvi) (zip vr dr)"
    by (simp add: ratio_row_def)
  also have "foldr min \<dots> 1 = spec_step_row vr dr"
    unfolding spec_step_row_def by (rule ratio_row_spec[OF assms(1) nz])
  finally show ?thesis using r by simp
qed

lemma ratio_row_pos:
  assumes "1 \<le> m" and "0 \<notin> set dr" and "\<forall>c \<in> set vr. 0 < c" and "t \<in> set (ratio_row m vr dr)"
  shows "0 < t"
proof -
  from assms(4) obtain vi dvi where z: "(vi, dvi) \<in> set (zip vr dr)"
    and t: "t = (if dvi > 0 then m else - vi / dvi)"
    by (auto simp: ratio_row_def)
  from z have "vi \<in> set vr" "dvi \<in> set dr" by (auto dest: set_zip_leftD set_zip_rightD)
  with assms have "0 < vi" "dvi \<noteq> 0" by auto
  show ?thesis
  proof (cases "dvi > 0")
    case True with t assms(1) show ?thesis by simp
  next
    case False
    with \<open>dvi \<noteq> 0\<close> have "dvi < 0" by simp
    with \<open>0 < vi\<close> have "0 < - vi / dvi" using divide_pos_neg[of vi dvi] by simp
    with False t show ?thesis by simp
  qed
qed


lemma same_shape_length: "same_shape a b \<Longrightarrow> length a = length b"
  unfolding same_shape_def by (rule map_eq_imp_length_eq)

lemma same_shape_rows:
  "same_shape a b \<Longrightarrow> (ar, br) \<in> set (zip a b) \<Longrightarrow> length ar = length br"
  unfolding same_shape_def
proof (induction a b rule: list_induct2')
  case (4 x xs y ys) then show ?case by auto
qed auto

lemma get_step_eq:
  assumes nz: "\<not> has_zero dv" and sh: "same_shape v dv" and ne: "v \<noteq> []" and rows: "[] \<notin> set v"
  shows "\<exists>amax. max_all (concat (tmap2 (\<lambda>vi dvi. - vi / dvi) v dv)) = Some amax \<and>
           get_step v dv = Inr (map2 (step_of (max 1 amax)) v dv)"
proof -
  let ?a = "tmap2 (\<lambda>vi dvi. - vi / dvi) v dv"
  from ne obtain vr v' where v: "v = vr # v'" by (cases v) auto
  with sh obtain dr dv' where dv: "dv = dr # dv'" by (cases dv) (auto simp: same_shape_def)
  from v dv sh have lr: "length vr = length dr" by (simp add: same_shape_def)
  from rows v have "vr \<noteq> []" by auto
  then obtain c cs where vr: "vr = c # cs" by (cases vr) auto
  with lr obtain e es where dr: "dr = e # es" by (cases dr) auto
  have "concat ?a \<noteq> []" by (simp add: v dv vr dr tmap2_def)
  then obtain amax where amax: "max_all (concat ?a) = Some amax"
    by (cases "concat ?a") auto
  let ?m = "max 1 amax"
  have nonempty: "[] \<notin> set (map2 (ratio_row ?m) v dv)"
  proof
    assume "[] \<in> set (map2 (ratio_row ?m) v dv)"
    then obtain ar br where z: "(ar, br) \<in> set (zip v dv)" and e: "ratio_row ?m ar br = []"
      by auto
    from z sh have "length ar = length br" by (rule same_shape_rows[rotated])
    with e have "ar = []" by (auto simp: ratio_row_def)
    moreover from z have "ar \<in> set v" by (rule set_zip_leftD)
    ultimately show False using rows by simp
  qed
  have "those_rows (map min_row (map2 (ratio_row ?m) v dv))
          = Some (map (\<lambda>r. fold min (tl r) (hd r)) (map2 (ratio_row ?m) v dv))"
    by (rule those_rows_min[OF nonempty])
  also have "map (\<lambda>r. fold min (tl r) (hd r)) (map2 (ratio_row ?m) v dv) = map2 (step_of ?m) v dv"
    by (auto simp: step_of_def split_def)
  finally have tr: "those_rows (map min_row (map2 (ratio_row ?m) v dv))
                      = Some (map2 (step_of ?m) v dv)" .
  have "get_step v dv = Inr (map2 (step_of ?m) v dv)"
    unfolding get_step_def Let_def amax option.case get_step_rows tr using nz by simp
  with amax show ?thesis by blast
qed


lemma max_all_mem: "max_all xs = Some m \<Longrightarrow> m \<in> set xs"
  using fold_max_mem by (cases xs) auto

lemma step_of_mem:
  "vr \<noteq> [] \<Longrightarrow> length vr = length dr \<Longrightarrow> step_of m vr dr \<in> set (ratio_row m vr dr)"
proof -
  assume a: "vr \<noteq> []" "length vr = length dr"
  then have "ratio_row m vr dr \<noteq> []" by (auto simp: ratio_row_def)
  then obtain c cs where r: "ratio_row m vr dr = c # cs" by (cases "ratio_row m vr dr") auto
  show ?thesis unfolding step_of_def r using fold_min_mem[of cs c] by simp
qed

text \<open>
  C2, amended: for a strictly positive \<open>v\<close> and a direction \<open>dv\<close> of the same non-empty
  shape without zero components, \<open>get_step\<close> returns one strictly positive step per
  batch element; clamping it to at most 1, as the caller \<open>forward\<close> does, gives
  \<open>min\<^sub>i { - v\<^sub>i / dv\<^sub>i : dv\<^sub>i < 0 }\<close> clamped to at most 1; and if all components of
  \<open>dv\<close> are positive the step equals 1.
\<close>

theorem get_step_unclamped:
  assumes nz: "\<not> has_zero dv" and sh: "same_shape v dv" and ne: "v \<noteq> []"
    and rows: "[] \<notin> set v" and pv: "pos v"
  shows "\<exists>step. get_step v dv = Inr step \<and> length step = length v
           \<and> (\<forall>t \<in> set step. 0 < t)
           \<and> map (min 1) step = spec_get_step v dv
           \<and> (pos dv \<longrightarrow> step = replicate (length v) 1)"
proof -
  from get_step_eq[OF nz sh ne rows] obtain amax
    where amax: "max_all (concat (tmap2 (\<lambda>vi dvi. - vi / dvi) v dv)) = Some amax"
      and gs: "get_step v dv = Inr (map2 (step_of (max 1 amax)) v dv)" by blast
  let ?m = "max 1 amax"
  let ?step = "map2 (step_of ?m) v dv"
  have m1: "1 \<le> ?m" by simp
  have len: "length ?step = length v" using same_shape_length[OF sh] by simp
  have row: "length vr = length dr \<and> vr \<noteq> [] \<and> 0 \<notin> set dr \<and> (\<forall>c \<in> set vr. 0 < c)"
    if "(vr, dr) \<in> set (zip v dv)" for vr dr
  proof -
    from that have "vr \<in> set v" "dr \<in> set dv" by (auto dest: set_zip_leftD set_zip_rightD)
    with rows nz pv same_shape_rows[OF sh that] show ?thesis
      by (auto simp: has_zero_def pos_def)
  qed
  have positive: "\<forall>t \<in> set ?step. 0 < t"
  proof
    fix t assume "t \<in> set ?step"
    then obtain vr dr where z: "(vr, dr) \<in> set (zip v dv)" and t: "t = step_of ?m vr dr" by auto
    from row[OF z] have "t \<in> set (ratio_row ?m vr dr)" unfolding t by (intro step_of_mem) auto
    with row[OF z] m1 show "0 < t" by (intro ratio_row_pos[of ?m dr vr t]) auto
  qed
  have clamp: "map (min 1) ?step = spec_get_step v dv"
  proof -
    have "map (min 1) ?step = map (\<lambda>(vr, dr). min 1 (step_of ?m vr dr)) (zip v dv)"
      by (auto simp: split_def)
    also have "\<dots> = map (\<lambda>(vr, dr). spec_step_row vr dr) (zip v dv)"
    proof (rule map_cong[OF refl])
      fix p assume p: "p \<in> set (zip v dv)"
      obtain vr dr where pq: "p = (vr, dr)" by (cases p)
      from row[of vr dr] p pq m1 have "min 1 (step_of ?m vr dr) = spec_step_row vr dr"
        unfolding step_of_def by (intro ratio_row_clamped) auto
      with pq show "(case p of (vr, dr) \<Rightarrow> min 1 (step_of ?m vr dr))
                      = (case p of (vr, dr) \<Rightarrow> spec_step_row vr dr)" by simp
    qed
    finally show ?thesis by (simp add: spec_get_step_def)
  qed
  have allpos: "?step = replicate (length v) 1" if pd: "pos dv"
  proof -
    from max_all_mem[OF amax] obtain ar where ar: "ar \<in> set (tmap2 (\<lambda>vi dvi. - vi / dvi) v dv)"
      and am: "amax \<in> set ar" by auto
    from ar obtain vr dr where z: "(vr, dr) \<in> set (zip v dv)"
      and ar': "ar = map2 (\<lambda>vi dvi. - vi / dvi) vr dr" by (auto simp: tmap2_def)
    from am ar' obtain vi dvi where zz: "(vi, dvi) \<in> set (zip vr dr)" and a: "amax = - vi / dvi"
      by auto
    from z zz have "vi \<in> set vr" "vr \<in> set v" "dvi \<in> set dr" "dr \<in> set dv"
      by (auto dest: set_zip_leftD set_zip_rightD)
    with pv pd have "0 < vi" "0 < dvi" by (auto simp: pos_def)
    then have "amax < 0" unfolding a by (simp add: divide_pos_pos)
    then have m: "?m = 1" by simp
    have "\<forall>t \<in> set ?step. t = 1"
    proof
      fix t assume "t \<in> set ?step"
      then obtain vr dr where z: "(vr, dr) \<in> set (zip v dv)" and t: "t = step_of ?m vr dr" by auto
      from row[OF z] have "t \<in> set (ratio_row ?m vr dr)" unfolding t by (intro step_of_mem) auto
      then obtain vi dvi where zz: "(vi, dvi) \<in> set (zip vr dr)"
        and tt: "t = (if dvi > 0 then ?m else - vi / dvi)" by (auto simp: ratio_row_def)
      from z zz have "dvi \<in> set dr" "dr \<in> set dv" by (auto dest: set_zip_rightD)
      with pd have "0 < dvi" by (auto simp: pos_def)
      with tt m show "t = 1" by simp
    qed
    then have "?step = replicate (length ?step) 1"
      by (metis replicate_length_same)
    with len show ?thesis by simp
  qed
  from gs len positive clamp allpos show ?thesis by blast
qed

theorem get_step_unclamped_witness:
  "get_step [[1, 2], [3, 1]] [[- (1 / 2), 1], [2, 1]] = Inr [2, 2]
   \<and> map (min 1) [2, 2] = spec_get_step [[1, 2], [3, 1]] [[- (1 / 2), 1], [2, 1]]"
proof -
  have h: "\<not> has_zero [[- (1 / 2), 1], [2, 1]]" "same_shape [[1, 2], [3, 1]] [[- (1 / 2), 1], [2, 1]]"
    "[[1, 2], [3, 1::real]] \<noteq> []" "[] \<notin> set [[1, 2], [3, 1::real]]" "pos [[1, 2], [3, 1]]"
    by (simp_all add: has_zero_def same_shape_def pos_def)
  have e: "get_step [[1, 2], [3, 1]] [[- (1 / 2), 1], [2, 1]] = Inr [2, 2]"
    by (simp add: get_step_def tmap2_def has_zero_def)
  from get_step_unclamped[OF h] e show ?thesis by auto
qed

text \<open>
  C2, as stated, fails: \<open>get_step\<close> itself does not clamp. For \<open>v = [[1]]\<close> and
  \<open>dv = [[-1/2]]\<close> it returns the ratio 2, where the specification's step is 1; and a
  direction without negative components but with a zero gives a division by zero, not 1.
\<close>

theorem get_step_not_clamped:
  "get_step [[1]] [[- (1 / 2)]] = Inr [2]
   \<and> spec_get_step [[1]] [[- (1 / 2)]] = [1]
   \<and> get_step [[1]] [[0]] = Inl NonFinite"
  by (simp add: get_step_def tmap2_def has_zero_def spec_get_step_def spec_step_row_def)

section \<open>Positivity of the slack and the dual\<close>

lemma fold_min_le: "x \<in> set (c # cs) \<Longrightarrow> fold min cs (c::real) \<le> x"
proof (induction cs arbitrary: c x)
  case Nil then show ?case by simp
next
  case (Cons d cs)
  have le: "fold min cs (min d c) \<le> min d c" using Cons.IH[of "min d c" "min d c"] by simp
  from Cons.prems consider "x = c" | "x = d" | "x \<in> set cs" by auto
  then show ?case
  proof cases
    case 1 with le show ?thesis by simp
  next
    case 2 with le show ?thesis by simp
  next
    case 3 then show ?thesis using Cons.IH[of x "min d c"] by simp
  qed
qed

lemma those_rows_SomeD:
  "those_rows (map min_row a) = Some st \<Longrightarrow>
     [] \<notin> set a \<and> st = map (\<lambda>r. fold min (tl r) (hd r)) a"
proof (induction a arbitrary: st)
  case Nil then show ?case by simp
next
  case (Cons r a)
  show ?case
  proof (cases r)
    case Nil with Cons.prems show ?thesis by simp
  next
    case (Cons c cs)
    with Cons.prems obtain st' where st': "those_rows (map min_row a) = Some st'"
      and st: "st = fold min cs c # st'" by (auto split: option.splits)
    from Cons.IH[OF st'] st Cons show ?thesis by simp
  qed
qed






lemma shift_positive_pos:
  assumes "shift_positive v = Inr v'"
  shows "pos v'"
proof -
  from assms obtain ms where ms: "those_rows (map min_row v) = Some ms"
    and v': "v' = map2 (\<lambda>row m. if m \<le> 0 then map (\<lambda>c. c - (m - 1)) row else row) v ms"
    by (auto simp: shift_positive_def split: option.splits)
  from those_rows_SomeD[OF ms] have ne: "[] \<notin> set v"
    and msd: "ms = map (\<lambda>r. fold min (tl r) (hd r)) v" by auto
  show ?thesis unfolding pos_def
  proof (intro ballI)
    fix row c assume row: "row \<in> set v'" and c: "c \<in> set row"
    from row obtain r where r: "r \<in> set v"
      and rr: "row = (let m = fold min (tl r) (hd r) in if m \<le> 0 then map (\<lambda>c. c - (m - 1)) r else r)"
      unfolding v' msd by (auto simp: zip_map2 zip_same_conv_map Let_def)
    from r ne have "r \<noteq> []" by auto
    then obtain e es where res: "r = e # es" by (cases r) auto
    let ?m = "fold min es e"
    have low: "?m \<le> y" if "y \<in> set r" for y using that fold_min_le[of y e es] res by simp
    show "0 < c"
    proof (cases "?m \<le> 0")
      case True
      with rr res c obtain y where "y \<in> set r" "c = y - (?m - 1)" by (auto simp: Let_def)
      with low[of y] show ?thesis by simp
    next
      case False
      with rr res c have "c \<in> set r" by (auto simp: Let_def)
      with low[of c] False show ?thesis by simp
    qed
  qed
qed

lemma start_pos:
  assumes "start r = Inr it"
  shows "pos (it_s it) \<and> pos (it_z it)"
proof -
  from assms obtain dir :: direction where r: "r = Inr dir" by (cases r) (auto simp: start_def)
  from assms r obtain sv where sv: "shift_positive (ds dir) = Inr sv"
    by (cases "shift_positive (ds dir)") (auto simp: start_def)
  from assms r sv obtain zv where zv: "shift_positive (dz dir) = Inr zv"
    by (cases "shift_positive (dz dir)") (auto simp: start_def)
  from assms r sv zv have "it_s it = sv" "it_z it = zv" by (auto simp: start_def)
  with sv zv show ?thesis by (simp add: shift_positive_pos)
qed

lemma initialize_pos:
  assumes "initialize T alt P Q_LUv hp slv = (Inr it, hp')"
  shows "pos (it_s it) \<and> pos (it_z it)"
proof -
  from assms obtain r where "start r = Inr it"
    unfolding initialize_def
    by (auto split: sum.splits prod.splits if_splits option.splits)
  then show ?thesis by (rule start_pos)
qed

















section \<open>Running the model\<close>

lemma norm2_single: "norm2 [c] = \<bar>c\<bar>"
  by (simp add: norm2_def)

lemma loop_unfold:
  assumes "0 < n"
  shows "loop T alt P Q_LUv opts ns n st hp =
     (case iteration T alt P Q_LUv opts ns st hp of
        (Inl e, hp') \<Rightarrow> (Inl e, hp')
      | (Inr (Inl res), hp') \<Rightarrow> (Inr res, hp')
      | (Inr (Inr st'), hp') \<Rightarrow> loop T alt P Q_LUv opts ns (n - 1) st' hp')"
proof (cases n)
  case 0 with assms show ?thesis by simp
next
  case (Suc m)
  show ?thesis unfolding Suc by (simp only: loop.simps diff_Suc_1)
qed

lemma lu1_simps:
  "btrifact lu1 pv x = (if scalar_batch x then Some (x, map (\<lambda>_. [1]) x) else None)"
  "btrisolve_vec lu1 bv f = map2 lu1_solve_row bv (fst f)"
  "btrisolve_mat lu1 bm f = map2 (\<lambda>bm m. map (\<lambda>row. lu1_solve_row row m) bm) bm (fst f)"
  "unpack_P lu1 f = map (\<lambda>_. [[1]]) (fst f)"
  "unpack_L lu1 f = map (\<lambda>_. [[1]]) (fst f)"
  "unpack_U lu1 f = fst f"
  "accepts_pivot lu1 = True"
  "is_cuda lu1 = False"
  by (simp_all add: lu1_def)

lemmas tensor_defs = tmap2_def has_zero_def ones2_def zeros2_def zeros3_def tneg_def bmv_def
  bvm_def bmm_def btranspose_def madd_def msub_def mat_mul_def mat_vec_def vec_mat_def dot_def
  scale_rows_def add_rows_def tail_start_def select_rows_def norm2_single Let_def

lemmas factor_defs = lu1_simps get_sizes_def factor_kkt_def repivot_def btrifact_hack_def scalar_batch_def
  lu1_solve_row_def solve_kkt_def pre_factor_kkt_def set_block22_def set_block21_def
  set_pivots_def btrifact_error_def

lemmas run_defs = loop_unfold forward_def initialize_def iteration_def start_def
  shift_positive_def residuals_def duality_measure_def check_stop_def track_best_def
  stop_now_def inaccurate_def of_best_def advance_def kkt_direction_def centering_def
  take_step_def damped_alpha_def get_step_def default_options_def

lemmas scalar_defs = scalar_Q_LU_def scalar_A_def scalar_A_heap_def scalar_D_def scalar_D_heap_def
  scalar_S_def scalar_S_heap_def

lemma scalar_A_factors:
  "pre_factor_kkt lu1 False (prob_Q scalar_A) (prob_G scalar_A) (prob_F scalar_A) (prob_A scalar_A)
     = (Inr (scalar_Q_LU, S_LU scalar_A_heap, R scalar_A_heap), False)"
  by (simp add: factor_defs tensor_defs scalar_defs)

lemma scalar_D_factors:
  "pre_factor_kkt lu1 False (prob_Q scalar_D) (prob_G scalar_D) (prob_F scalar_D) (prob_A scalar_D)
     = (Inr (scalar_Q_LU, S_LU scalar_D_heap, R scalar_D_heap), False)"
  by (simp add: factor_defs tensor_defs scalar_defs)




lemma scalar_S_factors:
  "pre_factor_kkt lu1 False (prob_Q scalar_S) (prob_G scalar_S) (prob_F scalar_S) (prob_A scalar_S)
     = (Inr (scalar_Q_LU, S_LU scalar_S_heap, R scalar_S_heap), False)"
  by (simp add: factor_defs tensor_defs scalar_defs)

lemma scalar_D_initialize:
  "initialize lu1 no_alt scalar_D scalar_Q_LU scalar_D_heap LU_PARTIAL
     = (Inr \<lparr>it_x = [[2]], it_s = [[2]], it_z = [[1]], it_y = None\<rparr>,
        \<lparr>shown_btrifact_warning = False, factor_kkt_eye = Some [1, 1, 1],
         S_LU = ([[[- 1]]], [[1]]), R = [[[- 2]]]\<rparr>)"
  by (simp add: run_defs factor_defs tensor_defs scalar_defs)

lemma scalar_D_residuals:
  "residuals scalar_D \<lparr>it_x = [[2]], it_s = [[2]], it_z = [[1]], it_y = None\<rparr>
     = Inr \<lparr>r_x = [[3]], r_s = [[1]], r_z = [[9]], r_y = None, r_mu = [2], r_resids = [14]\<rparr>"
  by (simp add: run_defs factor_defs tensor_defs scalar_defs)

lemma scalar_D_factor_fails:
  "factor_kkt lu1 \<lparr>shown_btrifact_warning = False, factor_kkt_eye = Some [1, 1, 1],
                   S_LU = ([[[- 1]]], [[1]]), R = [[[- 2]]]\<rparr> [[1 / 2]]
     = (Some btrifact_error,
        \<lparr>shown_btrifact_warning = False, factor_kkt_eye = Some [1, 1, 1],
         S_LU = ([[[- 1]]], [[1]]), R = [[[- 2]]]\<rparr>)"
  by (simp add: factor_defs tensor_defs)


section \<open>The positivity invariant\<close>



section \<open>The duality measure\<close>

lemma sum_list_pos_nonneg: "\<forall>c \<in> set v. 0 < c \<Longrightarrow> 0 \<le> sum_list (v :: real list)"
  by (induction v) auto

text \<open>
  C6, as stated, fails: for \<open>s = z = [1, 1]\<close> (\<open>nineq = 2\<close>) the source computes
  \<open>mu = |2 / 2| = 1\<close>, the specification's formula \<open>mean(s\<cdot>z) / nineq\<close> gives \<open>1/2\<close>.
\<close>

theorem duality_measure_not_divided_twice:
  "duality_measure 2 [[1, 1]] [[1, 1]] = Inr [1]
   \<and> spec_duality_measure 2 [[1, 1]] [[1, 1]] = [1 / 2]"
  by (simp add: duality_measure_def spec_duality_measure_def mean_def tmap2_def)

text \<open>
  C6, amended: the duality measure computed from the current iterate is
  \<open>|sum\<^sub>i s\<^sub>i z\<^sub>i / nineq|\<close> per batch element; for strictly positive \<open>s\<close> and \<open>z\<close> with
  \<open>nineq\<close> components each it is the mean of the \<open>nineq\<close> products \<open>s\<^sub>i z\<^sub>i\<close>, divided
  by \<open>nineq\<close> once, that is \<open>nineq\<close> times the value of the specification's formula.
\<close>

theorem duality_measure_is_mean:
  assumes n: "0 < nineq"
    and ls: "\<forall>row \<in> set sv. length row = nineq" and lz: "\<forall>row \<in> set zv. length row = nineq"
    and ps: "pos sv" and pz: "pos zv"
  shows "duality_measure nineq sv zv = Inr (map mean (tmap2 (*) sv zv))
         \<and> map mean (tmap2 (*) sv zv) = map ((*) (real nineq)) (spec_duality_measure nineq sv zv)"
proof -
  have row: "length row = nineq \<and> 0 \<le> sum_list row" if "row \<in> set (tmap2 (*) sv zv)" for row
  proof -
    from that obtain sr zr where z: "(sr, zr) \<in> set (zip sv zv)" and r: "row = map2 (*) sr zr"
      by (auto simp: tmap2_def)
    from z have m: "sr \<in> set sv" "zr \<in> set zv" by (auto dest: set_zip_leftD set_zip_rightD)
    with ls lz r have len: "length row = nineq" by simp
    have "\<forall>c \<in> set row. 0 < c"
    proof
      fix c assume "c \<in> set row"
      with r obtain a b where "(a, b) \<in> set (zip sr zr)" "c = a * b" by auto
      moreover from this have "a \<in> set sr" "b \<in> set zr"
        by (auto dest: set_zip_leftD set_zip_rightD)
      ultimately show "0 < c" using m ps pz by (auto simp: pos_def)
    qed
    with len show ?thesis by (simp add: sum_list_pos_nonneg)
  qed
  have "map (\<lambda>row. \<bar>sum_list row / real nineq\<bar>) (tmap2 (*) sv zv) = map mean (tmap2 (*) sv zv)"
    by (rule map_cong[OF refl]) (use row n in \<open>auto simp: mean_def\<close>)
  then have a: "duality_measure nineq sv zv = Inr (map mean (tmap2 (*) sv zv))"
    using n by (simp add: duality_measure_def)
  have "map mean (tmap2 (*) sv zv)
          = map ((*) (real nineq)) (map (\<lambda>row. mean row / real nineq) (tmap2 (*) sv zv))"
    using n by simp
  with a show ?thesis by (simp only: spec_duality_measure_def)
qed

theorem duality_measure_is_mean_witness:
  "duality_measure 2 [[1, 1]] [[1, 1]] = Inr (map mean (tmap2 (*) [[1, 1]] [[1, 1]]))
   \<and> map mean (tmap2 (*) [[1, 1]] [[1, 1]]) = [1]
   \<and> map ((*) (real 2)) (spec_duality_measure 2 [[1, 1]] [[1, 1]]) = [1]"
proof -
  have h: "(0::nat) < 2" "\<forall>row \<in> set [[1, 1::real]]. length row = 2" "pos [[1, 1]]"
    by (simp_all add: pos_def)
  from duality_measure_is_mean[OF h(1) h(2) h(2) h(3) h(3)]
  show ?thesis by (simp add: mean_def tmap2_def)
qed

section \<open>The termination check\<close>

lemma scalar_A_residuals:
  "residuals scalar_A \<lparr>it_x = [[- (1 / 2)]], it_s = [[1]], it_z = [[1 / 2]], it_y = None\<rparr>
     = Inr \<lparr>r_x = [[0]], r_s = [[1 / 2]], r_z = [[3 / 2]], r_y = None,
            r_mu = [1 / 2], r_resids = [2]\<rparr>"
  by (simp add: run_defs factor_defs tensor_defs scalar_defs)

text \<open>
  C3, as stated, fails in its last part: the warning is printed only if
  \<open>verbose >= 0\<close>. With \<open>verbose = -1\<close> and \<open>notImprovedLim = 0\<close> the first iteration
  on \<open>scalar_A\<close> returns the best iterate, whose residual is 2, without a warning.
\<close>

theorem no_warning_when_quiet:
  "fst (forward lu1 no_alt scalar_A scalar_Q_LU scalar_A_heap
          (default_options\<lparr>notImprovedLim := 0, verbose := - 1\<rparr>))
     = Inr \<lparr>res_x = Some [[- (1 / 2)]], res_y = None, res_z = Some [[1 / 2]],
            res_s = Some [[1]], warned = False\<rparr>
   \<and> residuals scalar_A \<lparr>it_x = [[- (1 / 2)]], it_s = [[1]], it_z = [[1 / 2]], it_y = None\<rparr>
     = Inr \<lparr>r_x = [[0]], r_s = [[1 / 2]], r_z = [[3 / 2]], r_y = None,
            r_mu = [1 / 2], r_resids = [2]\<rparr>"
  by (simp add: run_defs factor_defs tensor_defs scalar_defs)

text \<open>
  C3, amended: in every iteration, once the residuals are computed and (for
  \<open>LU_PARTIAL\<close>) the factorisation is completed, and before any direction is
  computed, the loop returns the best tracked iterate exactly when the stall counter
  equals \<open>notImprovedLim\<close>, or the largest best residual over the batch is below
  \<open>eps\<close>, or the smallest \<open>mu\<close> over the batch exceeds \<open>1e100\<close>; the inaccuracy
  warning is printed exactly when that largest residual exceeds 1 and
  \<open>verbose >= 0\<close>. Otherwise the iteration goes on to the two solves and the update.
\<close>

theorem termination_check:
  assumes r: "residuals P (cur st) = Inr r"
    and nz: "\<not> has_zero (it_s (cur st))"
    and f: "(if solver opts = LU_PARTIAL
             then factor_kkt T hp (tmap2 (/) (it_z (cur st)) (it_s (cur st)))
             else (None, hp)) = (None, hp')"
    and tb: "track_best (fst (snd (snd ns))) (cur st) (r_resids r) (best st) (nNotImproved st)
               = Inr (bst, nNI)"
    and w: "max_all (t_resids bst) = Some worst"
    and m: "min_row (r_mu r) = Some mu_min"
  shows "fst (iteration T alt P Q_LUv opts ns st hp) =
     (if nNI = notImprovedLim opts \<or> worst < eps opts \<or> mu_min > 10 ^ 100
      then Inr (Inl (of_best (Some bst) (worst > 1 \<and> verbose opts \<ge> 0)))
      else ebind (advance T alt P Q_LUv opts ns hp' (cur st) r
                    (tmap2 (/) (it_z (cur st)) (it_s (cur st))))
             (\<lambda>it'. Inr (Inr \<lparr>cur = it', best = Some bst, nNotImproved = nNI\<rparr>)))"
proof -
  have sn: "stop_now nNI (notImprovedLim opts) (t_resids bst) (eps opts) (r_mu r)
              = Inr (nNI = notImprovedLim opts \<or> worst < eps opts \<or> mu_min > 10 ^ 100)"
    using w m by (simp add: stop_now_def)
  have ia: "inaccurate (t_resids bst) (verbose opts) = Inr (worst > 1 \<and> verbose opts \<ge> 0)"
    using w by (simp add: inaccurate_def)
  have cs: "check_stop opts (fst (snd (snd ns))) st r =
     (if nNI = notImprovedLim opts \<or> worst < eps opts \<or> mu_min > 10 ^ 100
      then Inr (Inl (of_best (Some bst) (worst > 1 \<and> verbose opts \<ge> 0)))
      else Inr (Inr (bst, nNI)))"
    by (simp add: check_stop_def tb sn ia)
  show ?thesis
    unfolding iteration_def r sum.case Let_def f prod.case option.case cs
    using nz by simp
qed

theorem termination_check_witness:
  "fst (iteration lu1 no_alt scalar_A scalar_Q_LU (default_options\<lparr>notImprovedLim := 0\<rparr>)
          (1, 1, 0, 1)
          \<lparr>cur = \<lparr>it_x = [[- (1 / 2)]], it_s = [[1]], it_z = [[1 / 2]], it_y = None\<rparr>,
           best = None, nNotImproved = 0\<rparr>
          \<lparr>shown_btrifact_warning = False, factor_kkt_eye = Some [1, 1, 1],
           S_LU = ([[[2]]], [[1]]), R = [[[1]]]\<rparr>)
     = Inr (Inl \<lparr>res_x = Some [[- (1 / 2)]], res_y = None, res_z = Some [[1 / 2]],
                 res_s = Some [[1]], warned = True\<rparr>)"
proof -
  let ?it = "\<lparr>it_x = [[- (1 / 2)]], it_s = [[1]], it_z = [[1 / 2]], it_y = None\<rparr>"
  let ?st = "\<lparr>cur = ?it, best = None, nNotImproved = 0\<rparr>"
  let ?hp = "\<lparr>shown_btrifact_warning = False, factor_kkt_eye = Some [1, 1, 1],
              S_LU = ([[[2]]], [[1]]), R = [[[1]]]\<rparr>"
  let ?hp' = "\<lparr>shown_btrifact_warning = False, factor_kkt_eye = Some [1, 1, 1],
               S_LU = ([[[3]]], [[1]]), R = [[[1]]]\<rparr>"
  let ?r = "\<lparr>r_x = [[0]], r_s = [[1 / 2]], r_z = [[3 / 2]], r_y = None,
             r_mu = [1 / 2], r_resids = [2]\<rparr>"
  let ?bst = "\<lparr>t_resids = [2], t_x = [[- (1 / 2)]], t_z = [[1 / 2]], t_s = [[1]], t_y = None\<rparr>"
  let ?opts = "default_options\<lparr>notImprovedLim := 0\<rparr>"
  have r: "residuals scalar_A (cur ?st) = Inr ?r" using scalar_A_residuals by simp
  have nz: "\<not> has_zero (it_s (cur ?st))" by (simp add: has_zero_def)
  have f: "(if solver ?opts = LU_PARTIAL
            then factor_kkt lu1 ?hp (tmap2 (/) (it_z (cur ?st)) (it_s (cur ?st)))
            else (None, ?hp)) = (None, ?hp')"
    by (simp add: factor_defs tensor_defs default_options_def)
  have tb: "track_best (fst (snd (snd (1, 1, 0, 1)))) (cur ?st) (r_resids ?r) (best ?st)
              (nNotImproved ?st) = Inr (?bst, 0)"
    by (simp add: track_best_def)
  have w: "max_all (t_resids ?bst) = Some 2" by simp
  have m: "min_row (r_mu ?r) = Some (1 / 2)" by simp
  from termination_check[OF r nz f tb w m, of no_alt scalar_Q_LU]
  show ?thesis by (simp add: default_options_def of_best_def)
qed

section \<open>Failures of the factorisation\<close>

lemma pos_no_zero: "pos t \<Longrightarrow> \<not> has_zero t"
  by (auto simp: pos_def has_zero_def)

lemma pos_ratio_no_zero:
  assumes "pos zv" and "pos sv"
  shows "\<not> has_zero (tmap2 (/) zv sv)"
proof
  assume "has_zero (tmap2 (/) zv sv)"
  then obtain zr sr a c where "(zr, sr) \<in> set (zip zv sv)" "(a, c) \<in> set (zip zr sr)" "a / c = 0"
    by (auto simp: has_zero_def tmap2_def)
  moreover from this have "zr \<in> set zv" "sr \<in> set sv" "a \<in> set zr" "c \<in> set sr"
    by (auto dest: set_zip_leftD set_zip_rightD)
  ultimately show False using assms by (auto simp: pos_def)
qed

lemma factor_kkt_NonFinite:
  assumes "factor_kkt T hp d = (Some e, hp')" and "\<not> has_zero d"
  shows "e = btrifact_error"
  using assms
  by (auto simp: factor_kkt_def Let_def split: if_splits prod.splits option.splits)

lemma factor_failure_iteration:
  assumes sv: "solver opts = LU_PARTIAL" and r: "residuals P (cur st) = Inr r"
    and ps: "pos (it_s (cur st))" and pz: "pos (it_z (cur st))"
    and f: "factor_kkt T hp (tmap2 (/) (it_z (cur st)) (it_s (cur st))) = (Some e, hp')"
  shows "iteration T alt P Q_LUv opts ns st hp = (Inr (Inl (of_best (best st) False)), hp')"
proof -
  from factor_kkt_NonFinite[OF f pos_ratio_no_zero[OF pz ps]] have "e \<noteq> NonFinite"
    by (simp add: btrifact_error_def)
  then show ?thesis
    unfolding iteration_def r sum.case Let_def using pos_no_zero[OF ps] sv f by simp
qed

text \<open>
  C4, as stated, fails: only the \<open>factor_kkt\<close> call inside the loop is guarded. On
  \<open>scalar_S\<close> the factorisation performed before the first iteration fails and
  \<open>forward\<close> raises.
\<close>

theorem initial_failure_raises:
  "fst (forward lu1 no_alt scalar_S scalar_Q_LU scalar_S_heap default_options)
     = Inl (RuntimeError ''btrifact: failed to factorize some batch elements'')"
  by (simp add: run_defs factor_defs tensor_defs scalar_defs)

text \<open>
  C4, amended: with the strategy \<open>LU_PARTIAL\<close>, whenever the reweighted factorisation
  (\<open>factor_kkt\<close> with \<open>d = z / s\<close>) fails inside the loop, \<open>forward\<close> returns the best
  iterate tracked so far, without a warning, instead of propagating the exception.
  A failure of the factorisation performed before the first iteration is propagated
  to the caller, and so is an exception of the initial solve of any other strategy.
\<close>

theorem factor_failure_returns_best:
  "(solver opts = LU_PARTIAL \<and> residuals P (cur st) = Inr r
      \<and> pos (it_s (cur st)) \<and> pos (it_z (cur st))
      \<and> fst (factor_kkt T hp (tmap2 (/) (it_z (cur st)) (it_s (cur st)))) = Some e
    \<longrightarrow> fst (loop T alt P Q_LUv opts ns (Suc n) st hp) = Inr (of_best (best st) False))
   \<and> (solver opts' = LU_PARTIAL \<and> get_sizes (prob_G P') (prob_A P') = Inr (nineq, nz, neq, nBatch)
      \<and> fst (factor_kkt T hp0 (ones2 nBatch nineq)) = Some e'
    \<longrightarrow> fst (forward T alt P' Q_LUv' hp0 opts') = Inl e')
   \<and> (solver opts'' \<noteq> LU_PARTIAL \<and> get_sizes (prob_G P'') (prob_A P'') = Inr (nineq', nz', neq', nBatch')
      \<and> alt (solver opts'') (ones2 nBatch' nineq') (prob_p P'') (zeros2 nBatch' nineq')
            (tneg (prob_h P'')) (map_option tneg (prob_b P'')) = Inl e''
    \<longrightarrow> fst (forward T alt P'' Q_LUv'' hp0' opts'') = Inl e'')"
proof (intro conjI impI)
  assume a: "solver opts = LU_PARTIAL \<and> residuals P (cur st) = Inr r
      \<and> pos (it_s (cur st)) \<and> pos (it_z (cur st))
      \<and> fst (factor_kkt T hp (tmap2 (/) (it_z (cur st)) (it_s (cur st)))) = Some e"
  then obtain hp' where
    f: "factor_kkt T hp (tmap2 (/) (it_z (cur st)) (it_s (cur st))) = (Some e, hp')"
    by (cases "factor_kkt T hp (tmap2 (/) (it_z (cur st)) (it_s (cur st)))") auto
  from a have "iteration T alt P Q_LUv opts ns st hp = (Inr (Inl (of_best (best st) False)), hp')"
    by (intro factor_failure_iteration[OF _ _ _ _ f]) auto
  then show "fst (loop T alt P Q_LUv opts ns (Suc n) st hp) = Inr (of_best (best st) False)"
    by simp
next
  assume a: "solver opts' = LU_PARTIAL \<and> get_sizes (prob_G P') (prob_A P') = Inr (nineq, nz, neq, nBatch)
      \<and> fst (factor_kkt T hp0 (ones2 nBatch nineq)) = Some e'"
  then obtain hp' where "factor_kkt T hp0 (ones2 nBatch nineq) = (Some e', hp')"
    by (cases "factor_kkt T hp0 (ones2 nBatch nineq)") auto
  with a show "fst (forward T alt P' Q_LUv' hp0 opts') = Inl e'"
    by (simp add: forward_def initialize_def)
next
  assume a: "solver opts'' \<noteq> LU_PARTIAL \<and> get_sizes (prob_G P'') (prob_A P'') = Inr (nineq', nz', neq', nBatch')
      \<and> alt (solver opts'') (ones2 nBatch' nineq') (prob_p P'') (zeros2 nBatch' nineq')
            (tneg (prob_h P'')) (map_option tneg (prob_b P'')) = Inl e''"
  then show "fst (forward T alt P'' Q_LUv'' hp0' opts'') = Inl e''"
    by (simp add: forward_def initialize_def start_def)
qed

theorem factor_failure_returns_best_witness:
  "fst (loop lu1 no_alt scalar_D scalar_Q_LU default_options (1, 1, 0, 1) (Suc 5)
          \<lparr>cur = \<lparr>it_x = [[2]], it_s = [[2]], it_z = [[1]], it_y = None\<rparr>,
           best = Some \<lparr>t_resids = [3], t_x = [[1]], t_z = [[1]], t_s = [[4]], t_y = None\<rparr>,
           nNotImproved = 1\<rparr>
          \<lparr>shown_btrifact_warning = False, factor_kkt_eye = Some [1, 1, 1],
           S_LU = ([[[- 1]]], [[1]]), R = [[[- 2]]]\<rparr>)
     = Inr \<lparr>res_x = Some [[1]], res_y = None, res_z = Some [[1]], res_s = Some [[4]],
            warned = False\<rparr>
   \<and> fst (forward lu1 no_alt scalar_S scalar_Q_LU scalar_S_heap default_options)
     = Inl btrifact_error
   \<and> fst (forward lu1 no_alt scalar_A scalar_Q_LU scalar_A_heap
            (default_options\<lparr>solver := LU_FULL\<rparr>)) = Inl AssertionError"
proof -
  let ?it = "\<lparr>it_x = [[2]], it_s = [[2]], it_z = [[1]], it_y = None\<rparr>"
  let ?bst = "\<lparr>t_resids = [3], t_x = [[1]], t_z = [[1]], t_s = [[4]], t_y = None\<rparr>"
  let ?st = "\<lparr>cur = ?it, best = Some ?bst, nNotImproved = 1\<rparr>"
  let ?hp = "\<lparr>shown_btrifact_warning = False, factor_kkt_eye = Some [1, 1, 1],
              S_LU = ([[[- 1]]], [[1]]), R = [[[- 2]]]\<rparr>"
  let ?r = "\<lparr>r_x = [[3]], r_s = [[1]], r_z = [[9]], r_y = None, r_mu = [2], r_resids = [14]\<rparr>"
  have h1: "solver default_options = LU_PARTIAL \<and> residuals scalar_D (cur ?st) = Inr ?r
      \<and> pos (it_s (cur ?st)) \<and> pos (it_z (cur ?st))
      \<and> fst (factor_kkt lu1 ?hp (tmap2 (/) (it_z (cur ?st)) (it_s (cur ?st)))) = Some btrifact_error"
    using scalar_D_residuals scalar_D_factor_fails
    by (simp add: default_options_def pos_def tmap2_def)
  have h2: "solver default_options = LU_PARTIAL
      \<and> get_sizes (prob_G scalar_S) (prob_A scalar_S) = Inr (1, 1, 0, 1)
      \<and> fst (factor_kkt lu1 scalar_S_heap (ones2 1 1)) = Some btrifact_error"
    by (simp add: default_options_def factor_defs tensor_defs scalar_defs)
  have h3: "solver (default_options\<lparr>solver := LU_FULL\<rparr>) \<noteq> LU_PARTIAL
      \<and> get_sizes (prob_G scalar_A) (prob_A scalar_A) = Inr (1, 1, 0, 1)
      \<and> no_alt (solver (default_options\<lparr>solver := LU_FULL\<rparr>)) (ones2 1 1) (prob_p scalar_A)
           (zeros2 1 1) (tneg (prob_h scalar_A)) (map_option tneg (prob_b scalar_A))
         = Inl AssertionError"
    by (simp add: default_options_def no_alt_def get_sizes_def scalar_defs)
  from factor_failure_returns_best[of default_options scalar_D ?st ?r lu1 ?hp btrifact_error
      no_alt scalar_Q_LU "(1, 1, 0, 1)" 5
      default_options scalar_S 1 1 0 1 scalar_S_heap btrifact_error scalar_Q_LU
      "default_options\<lparr>solver := LU_FULL\<rparr>" scalar_A 1 1 0 1 AssertionError
      scalar_Q_LU scalar_A_heap] h1 h2 h3
  show ?thesis by (simp add: of_best_def)
qed


text \<open>
  C10: with the strategy \<open>LU_PARTIAL\<close> and at least one iteration to run, if the
  initial solve succeeds and the reweighted factorisation fails in the first pass
  through the loop, where \<open>best\<close> is still untouched, then \<open>forward\<close> returns
  \<open>(None, None, None, None)\<close> for \<open>(x, y, z, s)\<close>.
\<close>

theorem first_failure_returns_none:
  assumes sv: "solver opts = LU_PARTIAL" and mi: "0 < maxIter opts"
    and sz: "get_sizes (prob_G P) (prob_A P) = Inr ns"
    and ini: "initialize T alt P Q_LUv hp LU_PARTIAL = (Inr it, hp1)"
    and res: "residuals P it = Inr r"
    and fk: "fst (factor_kkt T hp1 (tmap2 (/) (it_z it) (it_s it))) = Some e"
  shows "fst (forward T alt P Q_LUv hp opts)
           = Inr \<lparr>res_x = None, res_y = None, res_z = None, res_s = None, warned = False\<rparr>"
proof -
  let ?st = "\<lparr>cur = it, best = None, nNotImproved = 0\<rparr>"
  from fk obtain hp2 where f: "factor_kkt T hp1 (tmap2 (/) (it_z it) (it_s it)) = (Some e, hp2)"
    by (cases "factor_kkt T hp1 (tmap2 (/) (it_z it) (it_s it))") auto
  from initialize_pos[OF ini] have p: "pos (it_s (cur ?st))" "pos (it_z (cur ?st))" by simp_all
  have "iteration T alt P Q_LUv opts ns ?st hp1 = (Inr (Inl (of_best (best ?st) False)), hp2)"
    by (rule factor_failure_iteration[OF sv _ p]) (use res f in simp_all)
  moreover from mi obtain n where "nat (maxIter opts) = Suc n"
    by (cases "nat (maxIter opts)") auto
  ultimately show ?thesis using sz ini sv by (simp add: forward_def of_best_def)
qed

theorem first_failure_returns_none_witness:
  "fst (forward lu1 no_alt scalar_D scalar_Q_LU scalar_D_heap default_options)
     = Inr \<lparr>res_x = None, res_y = None, res_z = None, res_s = None, warned = False\<rparr>"
proof -
  let ?it = "\<lparr>it_x = [[2]], it_s = [[2]], it_z = [[1]], it_y = None\<rparr>"
  let ?hp = "\<lparr>shown_btrifact_warning = False, factor_kkt_eye = Some [1, 1, 1],
              S_LU = ([[[- 1]]], [[1]]), R = [[[- 2]]]\<rparr>"
  have sv: "solver default_options = LU_PARTIAL" and mi: "0 < maxIter default_options"
    by (simp_all add: default_options_def)
  have sz: "get_sizes (prob_G scalar_D) (prob_A scalar_D) = Inr (1, 1, 0, 1)"
    by (simp add: get_sizes_def scalar_defs)
  have fk: "fst (factor_kkt lu1 ?hp (tmap2 (/) (it_z ?it) (it_s ?it))) = Some btrifact_error"
    using scalar_D_factor_fails by (simp add: tmap2_def)
  from first_failure_returns_none[OF sv mi sz scalar_D_initialize scalar_D_residuals fk]
  show ?thesis .
qed

section \<open>The centering step\<close>

lemma scaled_row: "map2 (+) sr (map ((*) a) dr) = map2 (\<lambda>si dsi. si + a * dsi) sr dr"
  by (simp add: zip_map2 split_def)

lemma corrector_row:
  "map2 (/) (map ((+) c) (map2 (*) dr dzr)) sr
     = map (\<lambda>(si, dsi, dzi). (c + dsi * dzi) / si) (zip sr (zip dr dzr))"
  by (auto simp: list_eq_iff_nth_eq)

lemma centering_InrD:
  assumes "centering (nineq, nz, neq, nBatch) it mu aff = Inr c"
  obtains step_z step_s where
    "get_step (it_z it) (dz aff) = Inr step_z" "get_step (it_s it) (ds aff) = Inr step_s"
    "c_alpha c = map2 min (map2 min step_z step_s) (replicate nBatch 1)"
    "c_sig c = map2 (\<lambda>a b. (a / b) ^ 3)
        (map sum_list (tmap2 (*) (tmap2 (+) (it_s it) (scale_rows (c_alpha c) (ds aff)))
                                 (tmap2 (+) (it_z it) (scale_rows (c_alpha c) (dz aff)))))
        (map sum_list (tmap2 (*) (it_s it) (it_z it)))"
    "c_rs c = tmap2 (/) (add_rows (map2 (\<lambda>m sg. - m * sg) mu (c_sig c))
                           (tmap2 (*) (ds aff) (dz aff))) (it_s it)"
    "c_rx c = zeros2 nBatch nz" "c_rz c = zeros2 nBatch nineq" "c_ry c = Some (zeros2 nBatch neq)"
proof -
  from assms obtain step_z where gz: "get_step (it_z it) (dz aff) = Inr step_z"
    by (cases "get_step (it_z it) (dz aff)") (auto simp: centering_def)
  from assms gz obtain step_s where gs: "get_step (it_s it) (ds aff) = Inr step_s"
    by (cases "get_step (it_s it) (ds aff)") (auto simp: centering_def)
  from assms gz gs show thesis
    by (intro that[OF gz gs])
       (auto simp del: mult_minus_left simp: centering_def Let_def split: if_splits)
qed

lemma centering_nth:
  assumes c: "centering (nineq, nz, neq, nBatch) it mu aff = Inr c"
    and gz: "get_step (it_z it) (dz aff) = Inr step_z"
    and gs: "get_step (it_s it) (ds aff) = Inr step_s"
  shows "\<forall>k < length (c_alpha c). c_alpha c ! k = min (min (step_z ! k) (step_s ! k)) 1"
    and "\<forall>k < length (c_sig c). c_sig c ! k
           = spec_sigma (c_alpha c ! k) (it_s it ! k) (ds aff ! k) (it_z it ! k) (dz aff ! k)"
    and "\<forall>k < length (c_rs c). c_rs c ! k
           = spec_corrector_rs (mu ! k) (c_sig c ! k) (it_s it ! k) (ds aff ! k) (dz aff ! k)"
proof -
  from c obtain sz ss where g: "get_step (it_z it) (dz aff) = Inr sz"
      "get_step (it_s it) (ds aff) = Inr ss"
    and al: "c_alpha c = map2 min (map2 min sz ss) (replicate nBatch 1)"
    and sg: "c_sig c = map2 (\<lambda>a b. (a / b) ^ 3)
        (map sum_list (tmap2 (*) (tmap2 (+) (it_s it) (scale_rows (c_alpha c) (ds aff)))
                                 (tmap2 (+) (it_z it) (scale_rows (c_alpha c) (dz aff)))))
        (map sum_list (tmap2 (*) (it_s it) (it_z it)))"
    and rs: "c_rs c = tmap2 (/) (add_rows (map2 (\<lambda>m sg. - m * sg) mu (c_sig c))
                           (tmap2 (*) (ds aff) (dz aff))) (it_s it)"
    by (rule centering_InrD)
  from g gz gs have [simp]: "sz = step_z" "ss = step_s" by simp_all
  show "\<forall>k < length (c_alpha c). c_alpha c ! k = min (min (step_z ! k) (step_s ! k)) 1"
    unfolding al by auto
  show "\<forall>k < length (c_sig c). c_sig c ! k
           = spec_sigma (c_alpha c ! k) (it_s it ! k) (ds aff ! k) (it_z it ! k) (dz aff ! k)"
  proof (intro allI impI)
    fix k assume "k < length (c_sig c)"
    then have k: "k < length (it_s it)" "k < length (it_z it)" "k < length (c_alpha c)"
      "k < length (ds aff)" "k < length (dz aff)"
      by (subst (asm) sg, simp add: tmap2_def scale_rows_def)+
    then have "c_sig c ! k = (sum_list (map2 (*)
         (map2 (+) (it_s it ! k) (map ((*) (c_alpha c ! k)) (ds aff ! k)))
         (map2 (+) (it_z it ! k) (map ((*) (c_alpha c ! k)) (dz aff ! k))))
        / sum_list (map2 (*) (it_s it ! k) (it_z it ! k))) ^ 3"
      by (subst sg) (simp add: tmap2_def scale_rows_def)
    then show "c_sig c ! k
           = spec_sigma (c_alpha c ! k) (it_s it ! k) (ds aff ! k) (it_z it ! k) (dz aff ! k)"
      by (simp only: spec_sigma_def dot_def scaled_row)
  qed
  show "\<forall>k < length (c_rs c). c_rs c ! k
           = spec_corrector_rs (mu ! k) (c_sig c ! k) (it_s it ! k) (ds aff ! k) (dz aff ! k)"
  proof (intro allI impI)
    fix k assume "k < length (c_rs c)"
    then have k: "k < length (it_s it)" "k < length mu" "k < length (c_sig c)"
      "k < length (ds aff)" "k < length (dz aff)"
      by (subst (asm) rs, simp add: tmap2_def add_rows_def)+
    then have "c_rs c ! k = map2 (/) (map ((+) (- (mu ! k) * c_sig c ! k))
                               (map2 (*) (ds aff ! k) (dz aff ! k))) (it_s it ! k)"
      by (subst rs) (simp add: tmap2_def add_rows_def)
    then show "c_rs c ! k
           = spec_corrector_rs (mu ! k) (c_sig c ! k) (it_s it ! k) (ds aff ! k) (dz aff ! k)"
      by (simp only: spec_corrector_rs_def corrector_row)
  qed
qed

lemma advance_InrD:
  assumes "advance T alt P Q_LUv opts ns hp it r d = Inr it'"
  obtains aff c cor where
    "kkt_direction T alt P Q_LUv hp (solver opts) d (r_x r) (r_s r) (r_z r) (r_y r) = Inr aff"
    "centering ns it (r_mu r) aff = Inr c"
    "kkt_direction T alt P Q_LUv hp (solver opts) d (c_rx c) (c_rs c) (c_rz c) (c_ry c) = Inr cor"
    "take_step ns it aff cor = Inr it'"
proof -
  let ?k = "kkt_direction T alt P Q_LUv hp (solver opts) d"
  from assms obtain aff where a: "?k (r_x r) (r_s r) (r_z r) (r_y r) = Inr aff"
    by (cases "?k (r_x r) (r_s r) (r_z r) (r_y r)") (auto simp: advance_def)
  from assms a obtain c where c: "centering ns it (r_mu r) aff = Inr c"
    by (cases "centering ns it (r_mu r) aff") (auto simp: advance_def)
  from assms a c obtain cor where k: "?k (c_rx c) (c_rs c) (c_rz c) (c_ry c) = Inr cor"
    by (cases "?k (c_rx c) (c_rs c) (c_rz c) (c_ry c)") (auto simp: advance_def)
  from assms a c k have "take_step ns it aff cor = Inr it'" by (simp add: advance_def)
  with a c k show thesis by (rule that)
qed

text \<open>
  C5: whenever an iteration gets past the termination check and completes its two
  solves and the update, there are an affine direction \<open>aff\<close> (the solve with the
  residuals as right-hand side) and a corrector direction \<open>cor\<close> such that, per batch
  element \<open>k\<close>: the affine step length is
  \<open>min(get_step(z, dz_aff), get_step(s, ds_aff), 1)\<close>; the centering parameter is
  \<open>((s + alpha ds_aff) \<cdot> (z + alpha dz_aff) / (s \<cdot> z))\<^sup>3\<close>; and \<open>cor\<close> is the solve with
  a right-hand side that is zero in the rows \<open>rx, rz, ry\<close> and
  \<open>(- mu sigma + ds_aff dz_aff) / s\<close> in the row \<open>rs\<close>.
\<close>

theorem centering_matches_spec:
  assumes "advance T alt P Q_LUv opts (nineq, nz, neq, nBatch) hp it r d = Inr it'"
  shows "\<exists>aff step_z step_s c cor.
     kkt_direction T alt P Q_LUv hp (solver opts) d (r_x r) (r_s r) (r_z r) (r_y r) = Inr aff
   \<and> get_step (it_z it) (dz aff) = Inr step_z \<and> get_step (it_s it) (ds aff) = Inr step_s
   \<and> centering (nineq, nz, neq, nBatch) it (r_mu r) aff = Inr c
   \<and> (\<forall>k < length (c_alpha c). c_alpha c ! k = min (min (step_z ! k) (step_s ! k)) 1)
   \<and> (\<forall>k < length (c_sig c). c_sig c ! k
         = spec_sigma (c_alpha c ! k) (it_s it ! k) (ds aff ! k) (it_z it ! k) (dz aff ! k))
   \<and> (\<forall>k < length (c_rs c). c_rs c ! k
         = spec_corrector_rs (r_mu r ! k) (c_sig c ! k) (it_s it ! k) (ds aff ! k) (dz aff ! k))
   \<and> kkt_direction T alt P Q_LUv hp (solver opts) d
        (zeros2 nBatch nz) (c_rs c) (zeros2 nBatch nineq) (Some (zeros2 nBatch neq)) = Inr cor
   \<and> take_step (nineq, nz, neq, nBatch) it aff cor = Inr it'"
proof -
  from assms obtain aff c cor where
    a: "kkt_direction T alt P Q_LUv hp (solver opts) d (r_x r) (r_s r) (r_z r) (r_y r) = Inr aff"
    and c: "centering (nineq, nz, neq, nBatch) it (r_mu r) aff = Inr c"
    and k: "kkt_direction T alt P Q_LUv hp (solver opts) d (c_rx c) (c_rs c) (c_rz c) (c_ry c) = Inr cor"
    and t: "take_step (nineq, nz, neq, nBatch) it aff cor = Inr it'"
    by (rule advance_InrD)
  from c obtain step_z step_s where gz: "get_step (it_z it) (dz aff) = Inr step_z"
    and gs: "get_step (it_s it) (ds aff) = Inr step_s"
    and z: "c_rx c = zeros2 nBatch nz" "c_rz c = zeros2 nBatch nineq"
      "c_ry c = Some (zeros2 nBatch neq)"
    by (rule centering_InrD)
  from centering_nth[OF c gz gs] a gz gs c k[unfolded z] t show ?thesis by blast
qed

lemma scalar_A_advance:
  "advance lu1 no_alt scalar_A scalar_Q_LU default_options (1, 1, 0, 1)
     \<lparr>shown_btrifact_warning = False, factor_kkt_eye = Some [1, 1, 1],
      S_LU = ([[[3]]], [[1]]), R = [[[1]]]\<rparr>
     \<lparr>it_x = [[- (1 / 2)]], it_s = [[1]], it_z = [[1 / 2]], it_y = None\<rparr>
     \<lparr>r_x = [[0]], r_s = [[1 / 2]], r_z = [[3 / 2]], r_y = None, r_mu = [1 / 2], r_resids = [2]\<rparr>
     [[1 / 2]]
   = Inr \<lparr>it_x = [[- (15017 / 64000)]], it_s = [[1 / 1000]], it_z = [[48983 / 64000]],
          it_y = None\<rparr>"
  by (simp add: run_defs factor_defs tensor_defs scalar_defs)

lemma scalar_A_centering:
  "centering (1, 1, 0, 1) \<lparr>it_x = [[- (1 / 2)]], it_s = [[1]], it_z = [[1 / 2]], it_y = None\<rparr>
     [1 / 2] \<lparr>dx = [[1 / 6]], ds = [[- (4 / 3)]], dz = [[1 / 6]], dy = None\<rparr>
   = Inr \<lparr>c_alpha = [3 / 4], c_sig = [0], c_rx = [[0]], c_rs = [[- (2 / 9)]],
          c_rz = [[0]], c_ry = Some [[]]\<rparr>"
  by (simp add: run_defs tensor_defs)

theorem centering_matches_spec_witness:
  "\<exists>aff step_z step_s c cor.
     kkt_direction lu1 no_alt scalar_A scalar_Q_LU
        \<lparr>shown_btrifact_warning = False, factor_kkt_eye = Some [1, 1, 1],
         S_LU = ([[[3]]], [[1]]), R = [[[1]]]\<rparr>
        LU_PARTIAL [[1 / 2]] [[0]] [[1 / 2]] [[3 / 2]] None = Inr aff
   \<and> aff = \<lparr>dx = [[1 / 6]], ds = [[- (4 / 3)]], dz = [[1 / 6]], dy = None\<rparr>
   \<and> get_step [[1 / 2]] (dz aff) = Inr step_z \<and> get_step [[1]] (ds aff) = Inr step_s
   \<and> step_z = [1] \<and> step_s = [3 / 4]
   \<and> c = \<lparr>c_alpha = [3 / 4], c_sig = [0], c_rx = [[0]], c_rs = [[- (2 / 9)]],
            c_rz = [[0]], c_ry = Some [[]]\<rparr>
   \<and> c_alpha c ! 0 = min (min (step_z ! 0) (step_s ! 0)) 1
   \<and> c_sig c ! 0 = spec_sigma (3 / 4) [1] [- (4 / 3)] [1 / 2] [1 / 6]
   \<and> c_rs c ! 0 = spec_corrector_rs (1 / 2) 0 [1] [- (4 / 3)] [1 / 6]
   \<and> kkt_direction lu1 no_alt scalar_A scalar_Q_LU
        \<lparr>shown_btrifact_warning = False, factor_kkt_eye = Some [1, 1, 1],
         S_LU = ([[[3]]], [[1]]), R = [[[1]]]\<rparr>
        LU_PARTIAL [[1 / 2]] [[0]] [[- (2 / 9)]] [[0]] (Some [[]]) = Inr cor"
proof -
  let ?hp = "\<lparr>shown_btrifact_warning = False, factor_kkt_eye = Some [1, 1, 1],
              S_LU = ([[[3]]], [[1]]), R = [[[1]]]\<rparr>"
  let ?it = "\<lparr>it_x = [[- (1 / 2)]], it_s = [[1]], it_z = [[1 / 2]], it_y = None\<rparr>"
  let ?r = "\<lparr>r_x = [[0]], r_s = [[1 / 2]], r_z = [[3 / 2]], r_y = None, r_mu = [1 / 2],
             r_resids = [2]\<rparr>"
  from centering_matches_spec[OF scalar_A_advance]
  obtain aff step_z step_s c cor where
    a: "kkt_direction lu1 no_alt scalar_A scalar_Q_LU ?hp (solver default_options) [[1 / 2]]
          (r_x ?r) (r_s ?r) (r_z ?r) (r_y ?r) = Inr aff"
    and gz: "get_step (it_z ?it) (dz aff) = Inr step_z"
    and gs: "get_step (it_s ?it) (ds aff) = Inr step_s"
    and c: "centering (1, 1, 0, 1) ?it (r_mu ?r) aff = Inr c"
    and al: "\<forall>k < length (c_alpha c). c_alpha c ! k = min (min (step_z ! k) (step_s ! k)) 1"
    and sg: "\<forall>k < length (c_sig c). c_sig c ! k
         = spec_sigma (c_alpha c ! k) (it_s ?it ! k) (ds aff ! k) (it_z ?it ! k) (dz aff ! k)"
    and rs: "\<forall>k < length (c_rs c). c_rs c ! k
         = spec_corrector_rs (r_mu ?r ! k) (c_sig c ! k) (it_s ?it ! k) (ds aff ! k) (dz aff ! k)"
    and k: "kkt_direction lu1 no_alt scalar_A scalar_Q_LU ?hp (solver default_options) [[1 / 2]]
        (zeros2 1 1) (c_rs c) (zeros2 1 1) (Some (zeros2 1 0)) = Inr cor"
    by blast
  from a have aff: "aff = \<lparr>dx = [[1 / 6]], ds = [[- (4 / 3)]], dz = [[1 / 6]], dy = None\<rparr>"
    by (simp add: kkt_direction_def factor_defs tensor_defs scalar_defs default_options_def)
  have "get_step [[1 / 2]] [[1 / 6]] = Inr [1]" "get_step [[1]] [[- (4 / 3)]] = Inr [3 / 4]"
    by (simp_all add: get_step_def tensor_defs)
  with gz gs aff have st: "step_z = [1]" "step_s = [3 / 4]" by simp_all
  from c aff scalar_A_centering
  have cv: "c = \<lparr>c_alpha = [3 / 4], c_sig = [0], c_rx = [[0]], c_rs = [[- (2 / 9)]],
                  c_rz = [[0]], c_ry = Some [[]]\<rparr>" by simp
  from al sg rs cv aff have
    "c_alpha c ! 0 = min (min (step_z ! 0) (step_s ! 0)) 1"
    "c_sig c ! 0 = spec_sigma (3 / 4) [1] [- (4 / 3)] [1 / 2] [1 / 6]"
    "c_rs c ! 0 = spec_corrector_rs (1 / 2) 0 [1] [- (4 / 3)] [1 / 6]"
    by simp_all
  with a gz gs aff st cv k show ?thesis
    by (simp add: default_options_def zeros2_def)
qed

section \<open>The one-time factorisation\<close>

text \<open>
  C7, as stated, fails in its second half: after the factorisation of \<open>Q\<close> has
  succeeded, \<open>pre_factor_kkt\<close> still raises when the factorisation of
  \<open>A Q\<^sup>-\<^sup>1 A\<^sup>T\<close> fails (here \<open>A = [0]\<close>), and when \<open>F\<close> is \<open>None\<close>.
\<close>

theorem pre_factor_raises_after_Q:
  "fst (btrifact_hack lu1 False [[[1]]]) = Some ([[[1]]], [[1]])
   \<and> fst (pre_factor_kkt lu1 False [[[1]]] [[[1]]] (Some [[[0]]]) [[[0]]])
       = Inl (RuntimeError ''btrifact: failed to factorize some batch elements'')
   \<and> fst (pre_factor_kkt lu1 False [[[1]]] [[[1]]] None []) = Inl TypeError"
  by (simp add: factor_defs tensor_defs)

text \<open>
  C7, amended: on every well-shaped input on which the LU factorisation of \<open>Q\<close>
  fails, \<open>pre_factor_kkt\<close> raises the RuntimeError whose message names \<open>Q\<close> (not PSD,
  zero on the diagonal) and returns no factors; on every input on which the
  factorisation of \<open>Q\<close> succeeds, \<open>F\<close> is given and, when there are equality
  constraints, the factorisation of \<open>A Q\<^sup>-\<^sup>1 A\<^sup>T\<close> succeeds as well, it
  returns \<open>(Q_LU, S_LU, R)\<close> with the factors of \<open>Q\<close>, without raising.
\<close>

theorem pre_factor_kkt_outcomes:
  "(get_sizes Gm Am = Inr ns \<and> fst (btrifact_hack T shown Qm) = None
      \<longrightarrow> fst (pre_factor_kkt T shown Qm Gm Fm Am) = Inl q_not_psd)
   \<and> (get_sizes Gm' Am' = Inr (nineq, nz, neq, nBatch)
       \<and> btrifact_hack T' shown' Qm' = (Some Q_LUv, shown1) \<and> Fm' = Some Fv
       \<and> (neq = 0 \<or> fst (btrifact_hack T' shown1
                             (bmm Am' (btrisolve_mat T' (btranspose Am') Q_LUv))) = Some LU_A)
      \<longrightarrow> (\<exists>S_LUv Rv. fst (pre_factor_kkt T' shown' Qm' Gm' Fm' Am') = Inr (Q_LUv, S_LUv, Rv)))"
proof (intro conjI impI)
  assume a: "get_sizes Gm Am = Inr ns \<and> fst (btrifact_hack T shown Qm) = None"
  obtain nineq nz neq nBatch where ns: "ns = (nineq, nz, neq, nBatch)" by (cases ns) auto
  from a obtain sh where "btrifact_hack T shown Qm = (None, sh)"
    by (cases "btrifact_hack T shown Qm") auto
  with a ns show "fst (pre_factor_kkt T shown Qm Gm Fm Am) = Inl q_not_psd"
    by (simp add: pre_factor_kkt_def)
next
  assume a: "get_sizes Gm' Am' = Inr (nineq, nz, neq, nBatch)
       \<and> btrifact_hack T' shown' Qm' = (Some Q_LUv, shown1) \<and> Fm' = Some Fv
       \<and> (neq = 0 \<or> fst (btrifact_hack T' shown1
                             (bmm Am' (btrisolve_mat T' (btranspose Am') Q_LUv))) = Some LU_A)"
  show "\<exists>S_LUv Rv. fst (pre_factor_kkt T' shown' Qm' Gm' Fm' Am') = Inr (Q_LUv, S_LUv, Rv)"
  proof (cases "neq = 0")
    case True
    with a show ?thesis by (simp add: pre_factor_kkt_def Let_def)
  next
    case False
    with a obtain sh where
      "btrifact_hack T' shown1 (bmm Am' (btrisolve_mat T' (btranspose Am') Q_LUv)) = (Some LU_A, sh)"
      by (cases "btrifact_hack T' shown1 (bmm Am' (btrisolve_mat T' (btranspose Am') Q_LUv))") auto
    with a False show ?thesis by (simp add: pre_factor_kkt_def Let_def)
  qed
qed

theorem pre_factor_kkt_outcomes_witness:
  "fst (pre_factor_kkt lu1 False [[[0]]] [[[1]]] (Some [[[- 3]]]) [[[2]]])
     = Inl (RuntimeError
         ''lcp Error: Cannot perform LU factorization on Q. Please make sure that your Q matrix is PSD and has a non-zero diagonal.'')
   \<and> (\<exists>S_LUv Rv. fst (pre_factor_kkt lu1 False [[[1]]] [[[1]]] (Some [[[- 3]]]) [[[2]]])
         = Inr (([[[1]]], [[1]]), S_LUv, Rv))
   \<and> fst (pre_factor_kkt lu1 False [[[1]]] [[[1]]] (Some [[[- 3]]]) [[[2]]])
       = Inr (([[[1]]], [[1]]), ([[[4, 2], [1 / 2, 0]]], [[1, 2]]), [[[- 3]]])"
proof -
  have h1: "get_sizes [[[1]]] [[[2]]] = Inr (1, 1, 1, 1) \<and> fst (btrifact_hack lu1 False [[[0]]]) = None"
    by (simp add: factor_defs)
  have h2: "get_sizes [[[1]]] [[[2]]] = Inr (1, 1, 1, 1)
       \<and> btrifact_hack lu1 False [[[1]]] = (Some ([[[1]]], [[1]]), False) \<and> Some [[[- 3]]] = Some [[[- 3]]]
       \<and> ((1::nat) = 0 \<or> fst (btrifact_hack lu1 False
                             (bmm [[[2]]] (btrisolve_mat lu1 (btranspose [[[2]]]) ([[[1]]], [[1]]))))
                         = Some ([[[4]]], [[1]]))"
    by (simp add: factor_defs tensor_defs)
  have e: "fst (pre_factor_kkt lu1 False [[[1]]] [[[1]]] (Some [[[- 3]]]) [[[2]]])
       = Inr (([[[1]]], [[1]]), ([[[4, 2], [1 / 2, 0]]], [[1, 2]]), [[[- 3]]])"
    by (simp add: factor_defs tensor_defs)
  from pre_factor_kkt_outcomes[of "[[[1]]]" "[[[2]]]" "(1, 1, 1, 1)" lu1 False "[[[0]]]"
      "Some [[[- 3]]]" "[[[1]]]" "[[[2]]]" 1 1 1 1 lu1 False "[[[1]]]" "([[[1]]], [[1]])" False
      "Some [[[- 3]]]" "[[[- 3]]]" "([[[4]]], [[1]])"] h1 h2 e
  show ?thesis by (simp add: q_not_psd_def)
qed

section \<open>The frame of \<^verbatim>\<open>factor_kkt\<close>\<close>

lemma factor_kkt_failure:
  assumes "factor_kkt T hp d = (Some e, hp')"
  shows "S_LU hp' = S_LU hp \<and> R hp' = R hp"
  using assms
  by (auto simp: factor_kkt_def Let_def split: if_splits prod.splits option.splits)

lemma repivot_cases:
  obtains X P where "repivot T nineq neq (data, piv) T_LU
                       = (map2 (set_block21 nineq neq) data X, map2 (set_pivots nineq) piv P)"
    | P where "repivot T nineq neq (data, piv) T_LU = (data, map2 (set_pivots nineq) piv P)"
  by (cases T_LU; cases "neq > 0") (auto simp: repivot_def Let_def)

lemma factor_kkt_success:
  assumes "factor_kkt T hp d = (None, hp')"
  obtains T_data T_piv shown data1 piv1 where
    "\<not> has_zero d"
    "btrifact_hack T (shown_btrifact_warning hp) (reweighted (R hp) d) = (Some (T_data, T_piv), shown)"
    "S_LU hp' = (map2 (set_block22 (width d)) data1 T_data, piv1)"
    "R hp' = R hp"
    "(data1, piv1) = S_LU hp \<or> (\<exists>neq. (data1, piv1) = repivot T (width d) neq (S_LU hp) (T_data, T_piv))"
proof -
  from assms have nz: "\<not> has_zero d"
    by (auto simp: factor_kkt_def Let_def split: if_splits)
  obtain T_LU shown where
    b: "btrifact_hack T (shown_btrifact_warning hp) (reweighted (R hp) d) = (T_LU, shown)"
    by (cases "btrifact_hack T (shown_btrifact_warning hp) (reweighted (R hp) d)")
  from assms nz b obtain T_data T_piv where t: "T_LU = Some (T_data, T_piv)"
    by (cases T_LU)
       (auto simp: factor_kkt_def Let_def reweighted_def split: if_splits prod.splits)
  let ?neq = "(case snd (S_LU hp) of [] \<Rightarrow> 0 | r # _ \<Rightarrow> length r) - width d"
  obtain data1 piv1 where dp: "(if shown \<or> \<not> is_cuda T
                         then repivot T (width d) ?neq (S_LU hp) (T_data, T_piv)
                         else S_LU hp) = (data1, piv1)"
    by (cases "if shown \<or> \<not> is_cuda T
                         then repivot T (width d) ?neq (S_LU hp) (T_data, T_piv)
                         else S_LU hp")
  from assms nz b t dp have "S_LU hp' = (map2 (set_block22 (width d)) data1 T_data, piv1)"
    and "R hp' = R hp"
    by (auto simp: factor_kkt_def Let_def reweighted_def width_def split: if_splits)
  moreover from dp have "(data1, piv1) = S_LU hp \<or>
      (\<exists>neq. (data1, piv1) = repivot T (width d) neq (S_LU hp) (T_data, T_piv))"
    by (cases "shown \<or> \<not> is_cuda T") (simp_all, metis)
  ultimately show thesis using that nz b[unfolded t] by blast
qed


lemma tail_start_mono: "a \<le> b \<Longrightarrow> tail_start n a \<le> tail_start n b"
  by (auto simp: tail_start_def intro: diff_le_mono)

lemma tail_start_le: "tail_start n a \<le> a"
  by (simp add: tail_start_def)

lemma length_set_block21: "length (set_block21 nineq neq m X) \<le> length m"
  by (auto simp: set_block21_def Let_def tail_start_def)

lemma length_set_block22: "length (set_block22 nineq m X) \<le> length m"
  by (auto simp: set_block22_def Let_def tail_start_def)

lemma take_set_block21:
  "k \<le> tail_start nineq (length m) \<Longrightarrow> take k (set_block21 nineq neq m X) = take k m"
  using tail_start_le[of nineq "length m"] by (simp add: set_block21_def Let_def min_def)

lemma take_set_block22:
  "k \<le> tail_start nineq (length m) \<Longrightarrow> take k (set_block22 nineq m X) = take k m"
  using tail_start_le[of nineq "length m"] by (simp add: set_block22_def Let_def min_def)

lemma top_rows_set_block22:
  assumes "length (set_block22 nineq m1 X) = length m" and "length m1 \<le> length m"
    and "take (tail_start nineq (length m1)) m1 = take (tail_start nineq (length m1)) m"
  shows "top_rows nineq (set_block22 nineq m1 X) = top_rows nineq m"
proof -
  from assms(1,2) length_set_block22[of nineq m1 X] have l: "length m1 = length m" by simp
  have "top_rows nineq (set_block22 nineq m1 X) = take (tail_start nineq (length m)) (set_block22 nineq m1 X)"
    by (simp add: top_rows_def assms(1))
  also have "\<dots> = take (tail_start nineq (length m)) m1"
    by (rule take_set_block22) (simp add: l)
  also have "\<dots> = take (tail_start nineq (length m)) m" using assms(3) l by simp
  finally show ?thesis by (simp add: top_rows_def)
qed


lemma top_rows_data:
  assumes sd: "map length new = map length data"
    and new: "new = map2 (set_block22 n) data1 T_data"
    and d1: "data1 = data \<or> (\<exists>neq X. data1 = map2 (set_block21 n neq) data X)"
  shows "map (top_rows n) new = map (top_rows n) data"
proof (rule nth_equalityI)
  from sd have len: "length new = length data" by (rule map_eq_imp_length_eq)
  then show "length (map (top_rows n) new) = length (map (top_rows n) data)" by simp
  fix b assume "b < length (map (top_rows n) new)"
  then have b: "b < length new" by simp
  with new have b1: "b < length data1" and bt: "b < length T_data" by auto
  from b len have bd: "b < length data" by simp
  have nb: "new ! b = set_block22 n (data1 ! b) (T_data ! b)" using new b1 bt by simp
  from sd b bd have lb: "length (new ! b) = length (data ! b)"
    by (metis length_map nth_map)
  have m1: "length (data1 ! b) \<le> length (data ! b)
      \<and> take (tail_start n (length (data1 ! b))) (data1 ! b)
          = take (tail_start n (length (data1 ! b))) (data ! b)"
  proof -
    from d1 consider "data1 = data" | neq X where "data1 = map2 (set_block21 n neq) data X" by blast
    then show ?thesis
    proof cases
      case 1 then show ?thesis by simp
    next
      case 2
      with b1 have e: "data1 ! b = set_block21 n neq (data ! b) (X ! b)" by simp
      have "length (data1 ! b) \<le> length (data ! b)" unfolding e by (rule length_set_block21)
      moreover from this have "take (tail_start n (length (data1 ! b))) (data1 ! b)
          = take (tail_start n (length (data1 ! b))) (data ! b)"
        unfolding e by (intro take_set_block21 tail_start_mono)
      ultimately show ?thesis by simp
    qed
  qed
  from top_rows_set_block22[of n "data1 ! b" "T_data ! b" "data ! b"] lb nb m1
  have "top_rows n (new ! b) = top_rows n (data ! b)" by simp
  with b bd show "map (top_rows n) new ! b = map (top_rows n) data ! b" by simp
qed

lemma top_rows_pivots:
  assumes sp: "map length new = map length piv"
    and p1: "new = piv \<or> (\<exists>P. new = map2 (set_pivots n) piv P)"
  shows "map (top_rows n) new = map (top_rows n) piv"
proof -
  from p1 consider "new = piv" | P where "new = map2 (set_pivots n) piv P" by blast
  then show ?thesis
  proof cases
    case 1 then show ?thesis by simp
  next
    case 2
    show ?thesis
    proof (rule nth_equalityI)
      from sp have len: "length new = length piv" by (rule map_eq_imp_length_eq)
      then show "length (map (top_rows n) new) = length (map (top_rows n) piv)" by simp
      fix b assume "b < length (map (top_rows n) new)"
      then have b: "b < length new" by simp
      with len have bp: "b < length piv" by simp
      from 2 b have bP: "b < length P" by simp
      from sp b bp have lb: "length (new ! b) = length (piv ! b)" by (metis length_map nth_map)
      from 2 bp bP have "new ! b = take (tail_start n (length (piv ! b))) (piv ! b) @ P ! b"
        by (simp add: set_pivots_def)
      then have "top_rows n (new ! b) = top_rows n (piv ! b)"
        using tail_start_le[of n "length (piv ! b)"] lb by (simp add: top_rows_def)
      with b bp show "map (top_rows n) new ! b = map (top_rows n) piv ! b" by simp
    qed
  qed
qed

lemma block22_set_block22:
  assumes n: "0 < n" and lX: "length X = n" and rows: "\<forall>xr \<in> set X. length xr = n"
    and l1: "n \<le> length m1"
  shows "block22 n (set_block22 n m1 X) = X"
proof -
  let ?k = "length m1 - n"
  let ?f = "\<lambda>row xr. take (tail_start n (length row)) row @ xr"
  let ?Y = "map2 ?f (drop ?k m1) X"
  from n have ts: "tail_start n = (\<lambda>l. l - n)" by (auto simp: tail_start_def)
  have e: "set_block22 n m1 X = take ?k m1 @ ?Y" by (simp add: set_block22_def ts Let_def)
  have lY: "length ?Y = n" using lX l1 by simp
  have "length (set_block22 n m1 X) = length m1" unfolding e using lY l1 by simp
  then have d: "drop (tail_start n (length (set_block22 n m1 X))) (set_block22 n m1 X) = ?Y"
    unfolding ts e using l1 by simp
  have "map (\<lambda>row. drop (tail_start n (length row)) row) ?Y = X"
  proof (rule nth_equalityI)
    show "length (map (\<lambda>row. drop (tail_start n (length row)) row) ?Y) = length X"
      using lY lX by simp
    fix i assume "i < length (map (\<lambda>row. drop (tail_start n (length row)) row) ?Y)"
    then have i: "i < n" using lY by simp
    with lX l1 have iy: "?Y ! i = take (length (drop ?k m1 ! i) - n) (drop ?k m1 ! i) @ X ! i"
      by (simp add: ts)
    from i lX rows have lx: "length (X ! i) = n" by simp
    have "drop (length (?Y ! i) - n) (?Y ! i) = X ! i"
      unfolding iy using lx by (simp add: min_def)
    with i lY show "map (\<lambda>row. drop (tail_start n (length row)) row) ?Y ! i = X ! i"
      by (simp add: ts)
  qed
  with d show ?thesis by (simp add: block22_def)
qed


lemma factor_kkt_R: "R (snd (factor_kkt T hp d)) = R hp"
proof (cases "factor_kkt T hp d")
  case (Pair res hp')
  show ?thesis
  proof (cases res)
    case None
    with Pair have "factor_kkt T hp d = (None, hp')" by simp
    then have "R hp' = R hp" by (rule factor_kkt_success)
    with Pair show ?thesis by simp
  next
    case (Some e)
    with Pair factor_kkt_failure[of T hp d e hp'] show ?thesis by simp
  qed
qed

lemma initialize_R: "R (snd (initialize T alt P Q_LUv hp slv)) = R hp"
proof (cases "get_sizes (prob_G P) (prob_A P)")
  case (Inl e) then show ?thesis by (simp add: initialize_def)
next
  case (Inr ns)
  obtain nineq nz neq nBatch where ns: "ns = (nineq, nz, neq, nBatch)" by (cases ns) auto
  show ?thesis
  proof (cases "slv = LU_PARTIAL")
    case False with Inr ns show ?thesis by (simp add: initialize_def)
  next
    case True
    obtain res hp' where f: "factor_kkt T hp (ones2 nBatch nineq) = (res, hp')"
      by (cases "factor_kkt T hp (ones2 nBatch nineq)")
    with factor_kkt_R[of T hp "ones2 nBatch nineq"] have "R hp' = R hp" by simp
    with Inr ns True f show ?thesis by (cases res) (simp_all add: initialize_def)
  qed
qed

lemma iteration_R: "R (snd (iteration T alt P Q_LUv opts ns st hp)) = R hp"
proof (cases "residuals P (cur st)")
  case (Inl e) then show ?thesis by (simp add: iteration_def)
next
  case (Inr r)
  show ?thesis
  proof (cases "has_zero (it_s (cur st))")
    case True with Inr show ?thesis by (simp add: iteration_def)
  next
    case False
    let ?d = "tmap2 (/) (it_z (cur st)) (it_s (cur st))"
    obtain fk hp' where f: "(if solver opts = LU_PARTIAL then factor_kkt T hp ?d else (None, hp))
                              = (fk, hp')"
      by (cases "if solver opts = LU_PARTIAL then factor_kkt T hp ?d else (None, hp)")
    then have "R hp' = R hp" using factor_kkt_R[of T hp ?d] by (auto split: if_splits)
    with Inr False f show ?thesis by (cases fk) (simp_all add: iteration_def Let_def)
  qed
qed

lemma loop_R: "R (snd (loop T alt P Q_LUv opts ns n st hp)) = R hp"
proof (induction n arbitrary: st hp)
  case 0 then show ?case by (cases "best st") simp_all
next
  case (Suc n)
  obtain out hp' where i: "iteration T alt P Q_LUv opts ns st hp = (out, hp')"
    by (cases "iteration T alt P Q_LUv opts ns st hp")
  with iteration_R[of T alt P Q_LUv opts ns st hp] have r: "R hp' = R hp" by simp
  show ?case
  proof (cases out)
    case (Inl e) with i r show ?thesis by simp
  next
    case (Inr c)
    then show ?thesis using i r Suc.IH by (cases c) simp_all
  qed
qed

lemma forward_R: "R (snd (forward T alt P Q_LUv hp opts)) = R hp"
proof (cases "get_sizes (prob_G P) (prob_A P)")
  case (Inl e) then show ?thesis by (simp add: forward_def)
next
  case (Inr ns)
  obtain r hp' where i: "initialize T alt P Q_LUv hp (solver opts) = (r, hp')"
    by (cases "initialize T alt P Q_LUv hp (solver opts)")
  with initialize_R[of T alt P Q_LUv hp "solver opts"] have "R hp' = R hp" by simp
  with Inr i show ?thesis by (cases r) (simp_all add: forward_def loop_R)
qed

text \<open>
  C9: \<open>factor_kkt\<close> leaves \<open>R\<close> as it was (it works on a clone); \<open>Q_LU\<close> is not among
  the objects it can reach. Of \<open>S_LU\<close> it changes, in place and without changing the
  shape, only the last \<open>nineq\<close> rows of the data and the last \<open>nineq\<close> pivots: the
  rows above (the factored equality block 11 and the block 12) and the leading
  pivots are untouched, and nothing at all is changed when the factorisation
  fails. After a successful call the lower-right \<open>nineq \<times> nineq\<close> block holds the LU
  data of \<open>R + diag(1/d)\<close>; the rest of the last \<open>nineq\<close> rows is block 21 under the
  new row permutation. Through a whole call of \<open>forward\<close>, \<open>R\<close> stays as it was.
\<close>

theorem factor_kkt_frame:
  "(factor_kkt T hp d = (res, hp')
      \<and> map length (fst (S_LU hp')) = map length (fst (S_LU hp))
      \<and> map length (snd (S_LU hp')) = map length (snd (S_LU hp))
     \<longrightarrow> R hp' = R hp
       \<and> map (top_rows (width d)) (fst (S_LU hp')) = map (top_rows (width d)) (fst (S_LU hp))
       \<and> map (top_rows (width d)) (snd (S_LU hp')) = map (top_rows (width d)) (snd (S_LU hp))
       \<and> (res \<noteq> None \<longrightarrow> S_LU hp' = S_LU hp)
       \<and> (res = None \<and> 0 < width d
            \<and> btrifact_hack T (shown_btrifact_warning hp) (reweighted (R hp) d)
                = (Some (T_data, T_piv), sh)
            \<and> length T_data = length (fst (S_LU hp))
            \<and> (\<forall>X \<in> set T_data. length X = width d \<and> (\<forall>xr \<in> set X. length xr = width d))
            \<and> (\<forall>m \<in> set (fst (S_LU hp)). width d \<le> length m)
          \<longrightarrow> map (block22 (width d)) (fst (S_LU hp')) = T_data))
   \<and> R (snd (forward T' alt P Q_LUv hp0 opts)) = R hp0"
proof (intro conjI impI)
  show "R (snd (forward T' alt P Q_LUv hp0 opts)) = R hp0" by (rule forward_R)
next
  assume a: "factor_kkt T hp d = (res, hp')
      \<and> map length (fst (S_LU hp')) = map length (fst (S_LU hp))
      \<and> map length (snd (S_LU hp')) = map length (snd (S_LU hp))"
  then have f: "factor_kkt T hp d = (res, hp')"
    and sd: "map length (fst (S_LU hp')) = map length (fst (S_LU hp))"
    and sp: "map length (snd (S_LU hp')) = map length (snd (S_LU hp))" by simp_all
  from f factor_kkt_R[of T hp d] show "R hp' = R hp" by simp
  {
    assume "res \<noteq> None"
    then obtain e where "res = Some e" by auto
    with f factor_kkt_failure[of T hp d e hp'] show "S_LU hp' = S_LU hp" by simp
  }
  note fail = this
  have succ: "\<exists>T_data T_piv shown data1 piv1.
      btrifact_hack T (shown_btrifact_warning hp) (reweighted (R hp) d) = (Some (T_data, T_piv), shown)
      \<and> fst (S_LU hp') = map2 (set_block22 (width d)) data1 T_data \<and> snd (S_LU hp') = piv1
      \<and> (data1 = fst (S_LU hp) \<or> (\<exists>neq X. data1 = map2 (set_block21 (width d) neq) (fst (S_LU hp)) X))
      \<and> (piv1 = snd (S_LU hp) \<or> (\<exists>Pn. piv1 = map2 (set_pivots (width d)) (snd (S_LU hp)) Pn))"
    if "res = None"
  proof -
    from that f have "factor_kkt T hp d = (None, hp')" by simp
    then obtain T_data T_piv shown data1 piv1 where
      b: "btrifact_hack T (shown_btrifact_warning hp) (reweighted (R hp) d)
            = (Some (T_data, T_piv), shown)"
      and s: "S_LU hp' = (map2 (set_block22 (width d)) data1 T_data, piv1)"
      and c: "(data1, piv1) = S_LU hp
              \<or> (\<exists>neq. (data1, piv1) = repivot T (width d) neq (S_LU hp) (T_data, T_piv))"
      by (rule factor_kkt_success)
    obtain data piv where dp: "S_LU hp = (data, piv)" by (cases "S_LU hp")
    from c have "(data1 = data \<or> (\<exists>neq X. data1 = map2 (set_block21 (width d) neq) data X))
      \<and> (piv1 = piv \<or> (\<exists>Pn. piv1 = map2 (set_pivots (width d)) piv Pn))"
    proof
      assume "(data1, piv1) = S_LU hp" with dp show ?thesis by simp
    next
      assume "\<exists>neq. (data1, piv1) = repivot T (width d) neq (S_LU hp) (T_data, T_piv)"
      then obtain neq where r: "(data1, piv1) = repivot T (width d) neq (data, piv) (T_data, T_piv)"
        using dp by auto
      show ?thesis
        by (rule repivot_cases[of T "width d" neq data piv "(T_data, T_piv)"])
           (use r in \<open>auto simp: prod_eq_iff\<close>)
    qed
    with b s dp show ?thesis by auto
  qed
  show "map (top_rows (width d)) (fst (S_LU hp')) = map (top_rows (width d)) (fst (S_LU hp))"
  proof (cases res)
    case (Some e) with fail show ?thesis by simp
  next
    case None
    from succ[OF None] obtain T_data data1 where
      "fst (S_LU hp') = map2 (set_block22 (width d)) data1 T_data"
      "data1 = fst (S_LU hp) \<or> (\<exists>neq X. data1 = map2 (set_block21 (width d) neq) (fst (S_LU hp)) X)"
      by blast
    with sd show ?thesis by (rule top_rows_data)
  qed
  show "map (top_rows (width d)) (snd (S_LU hp')) = map (top_rows (width d)) (snd (S_LU hp))"
  proof (cases res)
    case (Some e) with fail show ?thesis by simp
  next
    case None
    from succ[OF None] have
      "snd (S_LU hp') = snd (S_LU hp)
       \<or> (\<exists>Pn. snd (S_LU hp') = map2 (set_pivots (width d)) (snd (S_LU hp)) Pn)"
      by blast
    with sp show ?thesis by (rule top_rows_pivots)
  qed
  assume b: "res = None \<and> 0 < width d
            \<and> btrifact_hack T (shown_btrifact_warning hp) (reweighted (R hp) d)
                = (Some (T_data, T_piv), sh)
            \<and> length T_data = length (fst (S_LU hp))
            \<and> (\<forall>X \<in> set T_data. length X = width d \<and> (\<forall>xr \<in> set X. length xr = width d))
            \<and> (\<forall>m \<in> set (fst (S_LU hp)). width d \<le> length m)"
  from succ b obtain data1 where
    new: "fst (S_LU hp') = map2 (set_block22 (width d)) data1 T_data"
    and d1: "data1 = fst (S_LU hp)
             \<or> (\<exists>neq X. data1 = map2 (set_block21 (width d) neq) (fst (S_LU hp)) X)"
    by auto
  from sd have len: "length (fst (S_LU hp')) = length (fst (S_LU hp))"
    by (rule map_eq_imp_length_eq)
  show "map (block22 (width d)) (fst (S_LU hp')) = T_data"
  proof (rule nth_equalityI)
    show "length (map (block22 (width d)) (fst (S_LU hp'))) = length T_data" using len b by simp
    fix i assume "i < length (map (block22 (width d)) (fst (S_LU hp')))"
    then have i: "i < length (fst (S_LU hp'))" by simp
    with new have i1: "i < length data1" and it: "i < length T_data" by auto
    from i len have id: "i < length (fst (S_LU hp))" by simp
    have ni: "fst (S_LU hp') ! i = set_block22 (width d) (data1 ! i) (T_data ! i)"
      using new i1 it by simp
    from sd i id have "length (fst (S_LU hp') ! i) = length (fst (S_LU hp) ! i)"
      by (metis length_map nth_map)
    moreover from b id have "width d \<le> length (fst (S_LU hp) ! i)" by simp
    moreover have "length (fst (S_LU hp') ! i) \<le> length (data1 ! i)"
      unfolding ni by (rule length_set_block22)
    ultimately have l1: "width d \<le> length (data1 ! i)" by simp
    from it have "T_data ! i \<in> set T_data" by (rule nth_mem)
    with b have sh: "length (T_data ! i) = width d" "\<forall>xr \<in> set (T_data ! i). length xr = width d"
      by blast+
    from b have n: "0 < width d" by simp
    from block22_set_block22[OF n sh l1] ni i
    show "map (block22 (width d)) (fst (S_LU hp')) ! i = T_data ! i" by simp
  qed
qed

theorem factor_kkt_frame_witness:
  "factor_kkt lu1 \<lparr>shown_btrifact_warning = False, factor_kkt_eye = None,
                   S_LU = ([[[4, 2], [1 / 2, 0]]], [[1, 2]]), R = [[[- 3]]]\<rparr> [[1]]
     = (None, \<lparr>shown_btrifact_warning = False, factor_kkt_eye = Some [1, 1, 1],
               S_LU = ([[[4, 2], [1 / 2, - 2]]], [[1, 2]]), R = [[[- 3]]]\<rparr>)
   \<and> map (top_rows 1) [[[4, 2], [1 / 2, - 2 :: real]]] = map (top_rows 1) [[[4, 2], [1 / 2, 0]]]
   \<and> map (top_rows 1) [[1, 2 :: int]] = map (top_rows 1) [[1, 2]]
   \<and> btrifact_hack lu1 False (reweighted [[[- 3]]] [[1]]) = (Some ([[[- 2]]], [[1]]), False)
   \<and> map (block22 1) [[[4, 2], [1 / 2, - 2]]] = [[[- 2]]]
   \<and> R (snd (forward lu1 no_alt scalar_A scalar_Q_LU scalar_A_heap default_options)) = [[[1]]]"
proof -
  let ?hp = "\<lparr>shown_btrifact_warning = False, factor_kkt_eye = None,
              S_LU = ([[[4, 2], [1 / 2, 0]]], [[1, 2]]), R = [[[- 3]]]\<rparr>"
  let ?hp' = "\<lparr>shown_btrifact_warning = False, factor_kkt_eye = Some [1, 1, 1],
               S_LU = ([[[4, 2], [1 / 2, - 2]]], [[1, 2]]), R = [[[- 3]]]\<rparr>"
  have f: "factor_kkt lu1 ?hp [[1]] = (None, ?hp')"
    by (simp add: factor_defs tensor_defs)
  have b: "btrifact_hack lu1 False (reweighted [[[- 3]]] [[1]]) = (Some ([[[- 2]]], [[1]]), False)"
    by (simp add: factor_defs reweighted_def)
  have h: "factor_kkt lu1 ?hp [[1]] = (None, ?hp')
      \<and> map length (fst (S_LU ?hp')) = map length (fst (S_LU ?hp))
      \<and> map length (snd (S_LU ?hp')) = map length (snd (S_LU ?hp))"
    using f by simp
  have g: "(None :: error option) = None \<and> 0 < width [[1]]
            \<and> btrifact_hack lu1 (shown_btrifact_warning ?hp) (reweighted (R ?hp) [[1]])
                = (Some ([[[- 2]]], [[1]]), False)
            \<and> length [[[- 2 :: real]]] = length (fst (S_LU ?hp))
            \<and> (\<forall>X \<in> set [[[- 2 :: real]]]. length X = width [[1]]
                  \<and> (\<forall>xr \<in> set X. length xr = width [[1]]))
            \<and> (\<forall>m \<in> set (fst (S_LU ?hp)). width [[1]] \<le> length m)"
    using b by (simp add: width_def)
  from factor_kkt_frame[of lu1 ?hp "[[1]]" None ?hp' "[[[- 2]]]" "[[1]]" False
      lu1 no_alt scalar_A scalar_Q_LU scalar_A_heap default_options] h g f b
  show ?thesis by (simp add: width_def scalar_A_heap_def)
qed

end
